theory Spec2Isabelle
  imports Complex_Main "HOL-Library.Word"
begin

unbundle bit_operations_syntax

section \<open>Data model\<close>

text \<open>
  The repository holds the library twice: the package \<^verbatim>\<open>src/kntp/core.py\<close> and the
  single-file copy \<^verbatim>\<open>kntp-lib.py\<close>. Both are embedded; the definitions taken from
  \<^verbatim>\<open>kntp-lib.py\<close> carry the prefix \<open>lib_\<close>. Python floats are modelled as
  \<^typ>\<open>real\<close> (exact arithmetic, no NaN and no rounding), Python integers as
  \<^typ>\<open>int\<close>, \<^verbatim>\<open>bytes\<close> as lists of 8-bit words.
\<close>

type_synonym byte = "8 word"

text \<open>The exceptions the two modules raise or catch. \<open>KeyboardInterrupt\<close> stands for the
  exceptions that are not subclasses of \<^verbatim>\<open>Exception\<close>.\<close>

datatype ntp_fault = TooShort | InvalidMode nat | Unsynchronized | StratumZero | OriginateMismatch

datatype exn =
    SocketTimeout
  | SocketGaierror
  | OSError
  | StructError
  | NTPResponseError ntp_fault
  | ValueError string
  | RuntimeError string
  | StatisticsError
  | KeyError string
  | KeyboardInterrupt

record Sample =
  offset_ms :: real
  delay_ms :: real

record Stats =
  server :: string
  ok :: int
  fail :: int
  avg_offset_ms :: real
  std_offset_ms :: real
  avg_delay_ms :: real
  std_delay_ms :: real

text \<open>\<^verbatim>\<open>Ranked\<close> repeats the seven fields of \<^verbatim>\<open>Stats\<close> and adds three; its field
  \<^verbatim>\<open>grade\<close> is called \<open>grade_str\<close> here, the name \<open>grade\<close> being the function's.\<close>

record Ranked = Stats +
  vs_base_ms :: real
  score :: real
  grade_str :: string

section \<open>Grades and the timestamp codec (core.py)\<close>

definition NTP_DELTA :: real where
  "NTP_DELTA = 2208988800"

definition grade :: "real \<Rightarrow> string" where
  "grade sc =
     (if sc \<le> 5 then ''A''
      else if sc \<le> 10 then ''B''
      else if sc \<le> 20 then ''C''
      else ''D'')"

definition system_to_ntp :: "real \<Rightarrow> real" where
  "system_to_ntp ts_unix = ts_unix + NTP_DELTA"

definition ntp_to_system :: "real \<Rightarrow> real" where
  "ntp_to_system ts_ntp = ts_ntp - NTP_DELTA"

text \<open>Python's \<^verbatim>\<open>int(x)\<close> on a float truncates towards zero.\<close>

definition py_int :: "real \<Rightarrow> int" where
  "py_int x = (if 0 \<le> x then \<lfloor>x\<rfloor> else \<lceil>x\<rceil>)"

section \<open>The struct module: big-endian unsigned 32-bit words\<close>

definition be_uint32 :: "byte list \<Rightarrow> nat" where
  "be_uint32 bs = foldl (\<lambda>acc b. acc * 256 + unat b) 0 bs"

text \<open>\<^verbatim>\<open>struct.unpack("!nI", buf)\<close>: \<^verbatim>\<open>struct.error\<close> unless the buffer has exactly
  \<open>4 * n\<close> bytes.\<close>

definition struct_unpack :: "nat \<Rightarrow> byte list \<Rightarrow> exn + nat list" where
  "struct_unpack n buf =
     (if length buf \<noteq> 4 * n then Inl StructError
      else Inr (map (\<lambda>k. be_uint32 (take 4 (drop (4 * k) buf))) [0..<n]))"

definition pack_uint32 :: "int \<Rightarrow> byte list" where
  "pack_uint32 v = map (\<lambda>k. word_of_int (v div 256 ^ k)) [3, 2, 1, 0]"

text \<open>\<^verbatim>\<open>struct.pack_into("!II", buf, off, a, b)\<close>: \<^verbatim>\<open>struct.error\<close> when a value
  does not fit 32 unsigned bits or the buffer is too small.\<close>

definition struct_pack_into_II :: "byte list \<Rightarrow> nat \<Rightarrow> int \<Rightarrow> int \<Rightarrow> exn + byte list" where
  "struct_pack_into_II buf off a b =
     (if a < 0 \<or> 2 ^ 32 \<le> a \<or> b < 0 \<or> 2 ^ 32 \<le> b then Inl StructError
      else if length buf < off + 8 then Inl StructError
      else Inr (take off buf @ pack_uint32 a @ pack_uint32 b @ drop (off + 8) buf))"

section \<open>Response validation and the query (core.py)\<close>

definition validate_ntp_response :: "byte list \<Rightarrow> int \<Rightarrow> int \<Rightarrow> exn + unit" where
  "validate_ntp_response data req_sec req_frac =
     (if length data < 48 then Inl (NTPResponseError TooShort)
      else
        let li_vn_mode = data ! 0;
            leap = (drop_bit 6 li_vn_mode) AND 3;
            mode = li_vn_mode AND 7;
            stratum = data ! 1
        in
          if mode \<noteq> 4 then Inl (NTPResponseError (InvalidMode (unat mode)))
          else if leap = 3 then Inl (NTPResponseError Unsynchronized)
          else if stratum = 0 then Inl (NTPResponseError StratumZero)
          else
            (case struct_unpack 2 (take 8 (drop 24 data)) of
               Inl e \<Rightarrow> Inl e
             | Inr orig \<Rightarrow>
                 if (int (orig ! 0), int (orig ! 1)) \<noteq> (req_sec, req_frac)
                 then Inl (NTPResponseError OriginateMismatch)
                 else Inr ()))"

text \<open>
  One attempt's environment: what \<^verbatim>\<open>socket.socket\<close> raises (if anything), the clock
  reading \<open>t1\<close>, and the exchange \<^verbatim>\<open>sendto\<close>/\<^verbatim>\<open>recvfrom\<close>/\<^verbatim>\<open>time.time()\<close>, which
  either raises or delivers the datagram and the clock reading \<open>t4\<close>.
\<close>

datatype net_result = NetError exn | NetReply "byte list" real

record net_env =
  socket_open :: "exn option"
  time_send :: real
  exchange :: "string \<Rightarrow> real \<Rightarrow> byte list \<Rightarrow> net_result"

definition request_packet :: "byte list" where
  "request_packet = (replicate 48 0)[0 := 0x23]"

definition sample_of :: "real \<Rightarrow> real \<Rightarrow> nat list \<Rightarrow> Sample" where
  "sample_of t1 t4 u =
     (let t2_ntp = real (u ! 8) + real (u ! 9) / 2 ^ 32;
          t3_ntp = real (u ! 10) + real (u ! 11) / 2 ^ 32;
          t2 = ntp_to_system t2_ntp;
          t3 = ntp_to_system t3_ntp;
          delay = (t4 - t1) - (t3 - t2);
          offset = ((t2 - t1) + (t3 - t4)) / 2
      in \<lparr>offset_ms = offset * 1000, delay_ms = delay * 1000\<rparr>)"

definition query_ntp :: "net_env \<Rightarrow> string \<Rightarrow> real \<Rightarrow> exn + Sample" where
  "query_ntp env host timeout =
     (case socket_open env of
        Some e \<Rightarrow> Inl e
      | None \<Rightarrow>
          if timeout < 0 then Inl (ValueError ''Timeout value out of range'')
          else
            let t1 = time_send env;
                t1_ntp = system_to_ntp t1;
                req_sec = py_int t1_ntp;
                req_frac = py_int ((t1_ntp - of_int req_sec) * 2 ^ 32)
            in
              (case struct_pack_into_II request_packet 40 req_sec req_frac of
                 Inl e \<Rightarrow> Inl e
               | Inr packet \<Rightarrow>
                   (case exchange env host timeout packet of
                      NetError e \<Rightarrow> Inl e
                    | NetReply data t4 \<Rightarrow>
                        (case validate_ntp_response data req_sec req_frac of
                           Inl e \<Rightarrow> Inl e
                         | Inr _ \<Rightarrow>
                             (case struct_unpack 12 (take 48 data) of
                                Inl e \<Rightarrow> Inl e
                              | Inr u \<Rightarrow> Inr (sample_of t1 t4 u))))))"

section \<open>The query of kntp-lib.py\<close>

definition lib_query_ntp :: "net_env \<Rightarrow> string \<Rightarrow> real \<Rightarrow> exn + Sample" where
  "lib_query_ntp env host timeout =
     (case socket_open env of
        Some e \<Rightarrow> Inl e
      | None \<Rightarrow>
          if timeout < 0 then Inl (ValueError ''Timeout value out of range'')
          else
            let t1 = time_send env;
                t1_ntp = system_to_ntp t1;
                sec = py_int t1_ntp;
                frac = py_int ((t1_ntp - of_int sec) * 2 ^ 32)
            in
              (case struct_pack_into_II request_packet 40 sec frac of
                 Inl e \<Rightarrow> Inl e
               | Inr packet \<Rightarrow>
                   (case exchange env host timeout packet of
                      NetError e \<Rightarrow> Inl e
                    | NetReply data t4 \<Rightarrow>
                        if length data < 48 then Inl (ValueError ''NTP response too short'')
                        else
                          (case struct_unpack 12 (take 48 data) of
                             Inl e \<Rightarrow> Inl e
                           | Inr u \<Rightarrow> Inr (sample_of t1 t4 u)))))"

section \<open>Sampling and aggregation\<close>

text \<open>
  \<^verbatim>\<open>collect_stats\<close> calls \<^verbatim>\<open>query_ntp\<close> once per round and server. The query engine
  is a parameter \<open>q\<close> here: \<open>q i j s timeout\<close> is the outcome of the call made in round
  \<open>i\<close> for the server \<open>s\<close> at position \<open>j\<close> of the list. The calls made and the pauses
  taken are recorded as a trace of events, so that "no network activity" can be stated.
\<close>

type_synonym query_fn = "nat \<Rightarrow> nat \<Rightarrow> string \<Rightarrow> real \<Rightarrow> exn + Sample"

datatype event = Query nat string | Sleep real

record acc =
  raw :: "string \<rightharpoonup> Sample list"
  fails :: "string \<rightharpoonup> int"
  trace :: "event list"

text \<open>The \<^verbatim>\<open>except\<close> clause of core.py:
  \<^verbatim>\<open>(socket.timeout, socket.gaierror, OSError, struct.error, NTPResponseError)\<close>.\<close>

fun caught :: "exn \<Rightarrow> bool" where
  "caught SocketTimeout = True"
| "caught SocketGaierror = True"
| "caught OSError = True"
| "caught StructError = True"
| "caught (NTPResponseError _) = True"
| "caught _ = False"

text \<open>The \<^verbatim>\<open>except Exception\<close> clause of kntp-lib.py.\<close>

fun lib_caught :: "exn \<Rightarrow> bool" where
  "lib_caught KeyboardInterrupt = False"
| "lib_caught _ = True"

text \<open>\<^verbatim>\<open>fails[s] += 1\<close>, in the handler.\<close>

definition count_failure :: "string \<Rightarrow> acc \<Rightarrow> (exn \<times> event list) + acc" where
  "count_failure s st =
     (case fails st s of
        None \<Rightarrow> Inl (KeyError s, trace st)
      | Some n \<Rightarrow> Inr (st\<lparr>fails := (fails st)(s \<mapsto> n + 1)\<rparr>))"

text \<open>
  The body of the inner loop, \<^verbatim>\<open>try: raw[s].append(query_ntp(s, timeout=timeout))\<close>
  with its handler. The two copies of the loop differ in the \<^verbatim>\<open>except\<close> clause only,
  which is the parameter \<open>catches\<close>. Python looks \<^verbatim>\<open>raw[s]\<close> up before the call.
\<close>

definition attempt ::
  "(exn \<Rightarrow> bool) \<Rightarrow> query_fn \<Rightarrow> real \<Rightarrow> nat \<Rightarrow> nat \<Rightarrow> string \<Rightarrow> acc \<Rightarrow> (exn \<times> event list) + acc" where
  "attempt catches q timeout i j s st =
     (case raw st s of
        None \<Rightarrow> if catches (KeyError s) then count_failure s st else Inl (KeyError s, trace st)
      | Some xs \<Rightarrow>
          let st1 = st\<lparr>trace := trace st @ [Query i s]\<rparr> in
            (case q i j s timeout of
               Inr x \<Rightarrow> Inr (st1\<lparr>raw := (raw st1)(s \<mapsto> xs @ [x])\<rparr>)
             | Inl e \<Rightarrow> if catches e then count_failure s st1 else Inl (e, trace st1)))"

fun run_servers ::
  "(exn \<Rightarrow> bool) \<Rightarrow> query_fn \<Rightarrow> real \<Rightarrow> nat \<Rightarrow> nat \<Rightarrow> string list \<Rightarrow> acc \<Rightarrow> (exn \<times> event list) + acc" where
  "run_servers catches q timeout i j [] st = Inr st"
| "run_servers catches q timeout i j (s # ss) st =
     (case attempt catches q timeout i j s st of
        Inl x \<Rightarrow> Inl x
      | Inr st' \<Rightarrow> run_servers catches q timeout i (Suc j) ss st')"

text \<open>The outer loop \<^verbatim>\<open>for i in range(samples)\<close>, over the list of round numbers.\<close>

fun run_rounds ::
  "(exn \<Rightarrow> bool) \<Rightarrow> query_fn \<Rightarrow> string list \<Rightarrow> int \<Rightarrow> real \<Rightarrow> real \<Rightarrow> nat list \<Rightarrow> acc
     \<Rightarrow> (exn \<times> event list) + acc" where
  "run_rounds catches q servers samples timeout sleep_between [] st = Inr st"
| "run_rounds catches q servers samples timeout sleep_between (i # rounds) st =
     (case run_servers catches q timeout i 0 servers st of
        Inl x \<Rightarrow> Inl x
      | Inr st' \<Rightarrow>
          run_rounds catches q servers samples timeout sleep_between rounds
            (if int i \<noteq> samples - 1 \<and> sleep_between > 0
             then st'\<lparr>trace := trace st' @ [Sleep sleep_between]\<rparr>
             else st'))"

text \<open>\<^verbatim>\<open>statistics.mean\<close> and \<^verbatim>\<open>statistics.pstdev\<close>; both raise on no data.\<close>

definition mean :: "real list \<Rightarrow> exn + real" where
  "mean xs = (if xs = [] then Inl StatisticsError else Inr (sum_list xs / real (length xs)))"

definition pstdev :: "real list \<Rightarrow> exn + real" where
  "pstdev xs =
     (case mean xs of
        Inl e \<Rightarrow> Inl e
      | Inr m \<Rightarrow> Inr (sqrt (sum_list (map (\<lambda>x. (x - m)\<^sup>2) xs) / real (length xs))))"

text \<open>One pass of the output loop: \<open>Inr None\<close> is \<^verbatim>\<open>continue\<close>.\<close>

definition stats_row :: "acc \<Rightarrow> string \<Rightarrow> exn + Stats option" where
  "stats_row st s =
     (case raw st s of
        None \<Rightarrow> Inl (KeyError s)
      | Some xs \<Rightarrow>
          (case fails st s of
             None \<Rightarrow> Inl (KeyError s)
           | Some fl \<Rightarrow>
               let k = int (length xs) in
                 if k = 0 then Inr None
                 else
                   let offs = map offset_ms xs; dels = map delay_ms xs in
                     (case mean offs of Inl e \<Rightarrow> Inl e | Inr ao \<Rightarrow>
                     (case (if k > 1 then pstdev offs else Inr 0) of Inl e \<Rightarrow> Inl e | Inr so \<Rightarrow>
                     (case mean dels of Inl e \<Rightarrow> Inl e | Inr ad \<Rightarrow>
                     (case (if k > 1 then pstdev dels else Inr 0) of Inl e \<Rightarrow> Inl e | Inr sd \<Rightarrow>
                        Inr (Some \<lparr>server = s, ok = k, fail = fl,
                                   avg_offset_ms = ao, std_offset_ms = so,
                                   avg_delay_ms = ad, std_delay_ms = sd\<rparr>)))))))"

fun build_out :: "acc \<Rightarrow> string list \<Rightarrow> Stats list \<Rightarrow> exn + Stats list" where
  "build_out st [] out = Inr out"
| "build_out st (s # ss) out =
     (case stats_row st s of
        Inl e \<Rightarrow> Inl e
      | Inr None \<Rightarrow> build_out st ss out
      | Inr (Some r) \<Rightarrow> build_out st ss (out @ [r]))"

text \<open>Everything of \<^verbatim>\<open>collect_stats\<close> after the argument checks, which is the same text
  in both copies up to the \<^verbatim>\<open>except\<close> clause.\<close>

definition sampling ::
  "(exn \<Rightarrow> bool) \<Rightarrow> query_fn \<Rightarrow> string list \<Rightarrow> int \<Rightarrow> real \<Rightarrow> real \<Rightarrow> event list \<times> (exn + Stats list)" where
  "sampling catches q servers samples timeout sleep_between =
     (let st0 = \<lparr>raw = fold (\<lambda>s m. m(s \<mapsto> [])) servers Map.empty,
                 fails = fold (\<lambda>s m. m(s \<mapsto> 0)) servers Map.empty,
                 trace = []\<rparr>
      in case run_rounds catches q servers samples timeout sleep_between [0..<nat samples] st0 of
           Inl (e, tr) \<Rightarrow> (tr, Inl e)
         | Inr st \<Rightarrow> (trace st, build_out st servers []))"

definition collect_stats ::
  "query_fn \<Rightarrow> string list \<Rightarrow> int \<Rightarrow> real \<Rightarrow> real \<Rightarrow> event list \<times> (exn + Stats list)" where
  "collect_stats q servers samples timeout sleep_between =
     (if samples < 1 then ([], Inl (ValueError ''samples must be >= 1''))
      else if timeout \<le> 0 then ([], Inl (ValueError ''timeout must be > 0''))
      else if sleep_between < 0 then ([], Inl (ValueError ''sleep_between must be >= 0''))
      else sampling caught q servers samples timeout sleep_between)"

definition lib_collect_stats ::
  "query_fn \<Rightarrow> string list \<Rightarrow> int \<Rightarrow> real \<Rightarrow> real \<Rightarrow> event list \<times> (exn + Stats list)" where
  "lib_collect_stats q servers samples timeout sleep_between =
     (if samples < 1 then ([], Inl (ValueError ''samples must be >= 1''))
      else sampling lib_caught q servers samples timeout sleep_between)"

section \<open>Ranking and recommendation\<close>

definition lib_grade :: "real \<Rightarrow> string" where
  "lib_grade sc =
     (if sc \<le> 5 then ''A''
      else if sc \<le> 10 then ''B''
      else if sc \<le> 20 then ''C''
      else ''D'')"

text \<open>The loop of \<^verbatim>\<open>rank_servers\<close>, the same text in both copies; \<open>g\<close> is the module's
  own \<^verbatim>\<open>grade\<close>, \<open>ranked\<close> the list built so far.\<close>

fun rank_loop ::
  "(real \<Rightarrow> string) \<Rightarrow> Stats list \<Rightarrow> string \<Rightarrow> Stats \<Rightarrow> real \<Rightarrow> real \<Rightarrow> real option \<Rightarrow> bool
     \<Rightarrow> Ranked list \<Rightarrow> Ranked list" where
  "rank_loop g [] base base_stat w_delay w_jitter max_delay_ms allow_base ranked = ranked"
| "rank_loop g (st # rest) base base_stat w_delay w_jitter max_delay_ms allow_base ranked =
     (if \<not> allow_base \<and> server st = base
      then rank_loop g rest base base_stat w_delay w_jitter max_delay_ms allow_base ranked
      else
        let vs_base = avg_offset_ms st - avg_offset_ms base_stat;
            sc = \<bar>vs_base\<bar> + (w_delay * avg_delay_ms st) + (w_jitter * std_offset_ms st)
        in
          if (case max_delay_ms of None \<Rightarrow> False | Some m \<Rightarrow> avg_delay_ms st \<ge> m)
          then rank_loop g rest base base_stat w_delay w_jitter max_delay_ms allow_base ranked
          else rank_loop g rest base base_stat w_delay w_jitter max_delay_ms allow_base
                 (ranked @
                  [\<lparr>server = server st, ok = ok st, fail = fail st,
                    avg_offset_ms = avg_offset_ms st, std_offset_ms = std_offset_ms st,
                    avg_delay_ms = avg_delay_ms st, std_delay_ms = std_delay_ms st,
                    vs_base_ms = vs_base, score = sc, grade_str = g sc\<rparr>]))"

text \<open>\<^verbatim>\<open>list.sort(key=...)\<close> is a stable sort, as \<^const>\<open>sort_key\<close> is. The message of
  the \<^verbatim>\<open>RuntimeError\<close> is modelled by the name of the missing base server.\<close>

definition rank_servers ::
  "Stats list \<Rightarrow> string \<Rightarrow> real \<Rightarrow> real \<Rightarrow> real option \<Rightarrow> bool \<Rightarrow> exn + Ranked list" where
  "rank_servers stats base w_delay w_jitter max_delay_ms allow_base =
     (if w_delay < 0 \<or> w_jitter < 0
      then Inl (ValueError ''w_delay and w_jitter must be >= 0'')
      else if (case max_delay_ms of None \<Rightarrow> False | Some m \<Rightarrow> m \<le> 0)
      then Inl (ValueError ''max_delay_ms must be > 0 when provided'')
      else
        (case find (\<lambda>x. server x = base) stats of
           None \<Rightarrow> Inl (RuntimeError base)
         | Some base_stat \<Rightarrow>
             Inr (sort_key score
                    (rank_loop grade stats base base_stat w_delay w_jitter max_delay_ms allow_base []))))"

definition lib_rank_servers ::
  "Stats list \<Rightarrow> string \<Rightarrow> real \<Rightarrow> real \<Rightarrow> real option \<Rightarrow> bool \<Rightarrow> exn + Ranked list" where
  "lib_rank_servers stats base w_delay w_jitter max_delay_ms allow_base =
     (case find (\<lambda>x. server x = base) stats of
        None \<Rightarrow> Inl (RuntimeError base)
      | Some base_stat \<Rightarrow>
          Inr (sort_key score
                 (rank_loop lib_grade stats base base_stat w_delay w_jitter max_delay_ms allow_base [])))"

text \<open>The loop of \<^verbatim>\<open>recommend\<close>, the same text in both copies.\<close>

fun recommend_scan :: "Ranked list \<Rightarrow> string \<Rightarrow> real \<Rightarrow> Ranked option" where
  "recommend_scan [] base require_ok_rate = None"
| "recommend_scan (r # rs) base require_ok_rate =
     (if server r = base then recommend_scan rs base require_ok_rate
      else
        let total = ok r + fail r;
            ok_rate = (if total > 0 then real_of_int (ok r) / real_of_int total else 0)
        in if ok_rate \<ge> require_ok_rate then Some r
           else recommend_scan rs base require_ok_rate)"

definition recommend :: "Ranked list \<Rightarrow> string \<Rightarrow> real \<Rightarrow> exn + Ranked option" where
  "recommend ranked base require_ok_rate =
     (if \<not> (0 \<le> require_ok_rate \<and> require_ok_rate \<le> 1)
      then Inl (ValueError ''require_ok_rate must be between 0.0 and 1.0'')
      else Inr (recommend_scan ranked base require_ok_rate))"

definition lib_recommend :: "Ranked list \<Rightarrow> string \<Rightarrow> real \<Rightarrow> exn + Ranked option" where
  "lib_recommend ranked base require_ok_rate = Inr (recommend_scan ranked base require_ok_rate)"

section \<open>Reference definitions and concrete inputs\<close>

text \<open>The big-endian unsigned 32-bit word held in the four bytes of a buffer from
  position \<open>k\<close> on, written out byte by byte.\<close>

definition word_at :: "byte list \<Rightarrow> nat \<Rightarrow> nat" where
  "word_at data k =
     unat (data ! k) * 2 ^ 24 + unat (data ! (k + 1)) * 2 ^ 16
       + unat (data ! (k + 2)) * 2 ^ 8 + unat (data ! (k + 3))"

text \<open>A server reply to a request sent at Unix time 0 (NTP second \<open>0x83AA7E80\<close>): mode 4,
  stratum 1, the originate timestamp echoed, received at second 1 and sent back at
  second 1.5 of the server's clock. The client reads it at second 2.\<close>

definition reply0 :: "byte list" where
  "reply0 = [0x24, 1] @ replicate 22 0 @ [0x83, 0xAA, 0x7E, 0x80, 0, 0, 0, 0]
      @ [0x83, 0xAA, 0x7E, 0x81, 0, 0, 0, 0] @ [0x83, 0xAA, 0x7E, 0x81, 0x80, 0, 0, 0]"

definition env0 :: net_env where
  "env0 = \<lparr>socket_open = None, time_send = 0, exchange = (\<lambda>h t p. NetReply reply0 2)\<rparr>"

text \<open>The same reply with byte 0 set to \<open>0x23\<close>: mode 3 (client), which no server sends.\<close>

definition reply3 :: "byte list" where
  "reply3 = reply0[0 := 0x23]"

definition env3 :: net_env where
  "env3 = \<lparr>socket_open = None, time_send = 0, exchange = (\<lambda>h t p. NetReply reply3 2)\<rparr>"

subsection \<open>The attempts of a sampling run\<close>

text \<open>
  An attempt is the round, the server and the outcome of the query. \<open>run_attempts\<close> lists
  the attempts of a whole run in the order the loops make them; \<open>successes_of\<close> and
  \<open>failures_of\<close> read a server's samples and its number of failed attempts off such a
  list; \<open>uncaught c\<close> holds of an attempt whose error the \<^verbatim>\<open>except\<close> clause \<open>c\<close> does
  not catch, and \<open>performed c\<close> cuts a list of attempts after the first such attempt.
\<close>

type_synonym attempt_rec = "nat \<times> string \<times> (exn + Sample)"

definition attempts_from ::
  "query_fn \<Rightarrow> real \<Rightarrow> nat \<Rightarrow> nat \<Rightarrow> string list \<Rightarrow> attempt_rec list" where
  "attempts_from q timeout i j ss = map (\<lambda>(k, s). (i, s, q i k s timeout)) (enumerate j ss)"

definition all_attempts ::
  "query_fn \<Rightarrow> real \<Rightarrow> string list \<Rightarrow> nat list \<Rightarrow> attempt_rec list" where
  "all_attempts q timeout servers rounds =
     concat (map (\<lambda>i. attempts_from q timeout i 0 servers) rounds)"

definition run_attempts :: "query_fn \<Rightarrow> real \<Rightarrow> string list \<Rightarrow> int \<Rightarrow> attempt_rec list" where
  "run_attempts q timeout servers samples = all_attempts q timeout servers [0..<nat samples]"

definition uncaught :: "(exn \<Rightarrow> bool) \<Rightarrow> attempt_rec \<Rightarrow> bool" where
  "uncaught c a = (case snd (snd a) of Inl e \<Rightarrow> \<not> c e | Inr x \<Rightarrow> False)"

fun performed :: "(exn \<Rightarrow> bool) \<Rightarrow> attempt_rec list \<Rightarrow> attempt_rec list" where
  "performed c [] = []"
| "performed c (a # as) = a # (if uncaught c a then [] else performed c as)"

definition successes_of :: "attempt_rec list \<Rightarrow> string \<Rightarrow> Sample list" where
  "successes_of as s =
     concat (map (\<lambda>(i, s', r). case r of Inr x \<Rightarrow> (if s' = s then [x] else []) | Inl e \<Rightarrow> []) as)"

definition failures_of :: "attempt_rec list \<Rightarrow> string \<Rightarrow> nat" where
  "failures_of as s = length (filter (\<lambda>(i, s', r). s' = s \<and> isl r) as)"

definition queries_of :: "event list \<Rightarrow> (nat \<times> string) list" where
  "queries_of tr = concat (map (\<lambda>ev. case ev of Query i s \<Rightarrow> [(i, s)] | Sleep d \<Rightarrow> []) tr)"

subsection \<open>Mean and population standard deviation\<close>

definition amean :: "real list \<Rightarrow> real" where
  "amean xs = sum_list xs / real (length xs)"

definition pstd :: "real list \<Rightarrow> real" where
  "pstd xs = sqrt (sum_list (map (\<lambda>x. (x - amean xs)\<^sup>2) xs) / real (length xs))"

definition stats_of :: "string \<Rightarrow> Sample list \<Rightarrow> int \<Rightarrow> Stats" where
  "stats_of s xs fl =
     \<lparr>server = s, ok = int (length xs), fail = fl,
      avg_offset_ms = amean (map offset_ms xs), std_offset_ms = pstd (map offset_ms xs),
      avg_delay_ms = amean (map delay_ms xs), std_delay_ms = pstd (map delay_ms xs)\<rparr>"

subsection \<open>Candidates, scores and success rates\<close>

definition candidate :: "string \<Rightarrow> real option \<Rightarrow> bool \<Rightarrow> Stats \<Rightarrow> bool" where
  "candidate base max_delay_ms allow_base st =
     ((allow_base \<or> server st \<noteq> base)
      \<and> (case max_delay_ms of None \<Rightarrow> True | Some m \<Rightarrow> avg_delay_ms st < m))"

definition letter :: "real \<Rightarrow> string" where
  "letter sc =
     (if sc \<le> 5 then ''A'' else if sc \<le> 10 then ''B'' else if sc \<le> 20 then ''C'' else ''D'')"

definition ranked_of :: "Stats \<Rightarrow> real \<Rightarrow> real \<Rightarrow> Stats \<Rightarrow> Ranked" where
  "ranked_of b w_delay w_jitter st =
     \<lparr>server = server st, ok = ok st, fail = fail st,
      avg_offset_ms = avg_offset_ms st, std_offset_ms = std_offset_ms st,
      avg_delay_ms = avg_delay_ms st, std_delay_ms = std_delay_ms st,
      vs_base_ms = avg_offset_ms st - avg_offset_ms b,
      score = \<bar>avg_offset_ms st - avg_offset_ms b\<bar> + w_delay * avg_delay_ms st
                + w_jitter * std_offset_ms st,
      grade_str = letter (\<bar>avg_offset_ms st - avg_offset_ms b\<bar> + w_delay * avg_delay_ms st
                + w_jitter * std_offset_ms st)\<rparr>"

definition ok_rate :: "Ranked \<Rightarrow> real" where
  "ok_rate r =
     (if ok r + fail r = 0 then 0 else real_of_int (ok r) / real_of_int (ok r + fail r))"

subsection \<open>Concrete runs\<close>

text \<open>A query engine under which server \<open>a\<close> answers in every round and every other
  server times out, and the run it yields over two rounds.\<close>

definition q1 :: query_fn where
  "q1 i j s t =
     (if s = ''a''
      then Inr \<lparr>offset_ms = (if i = 0 then 1 else 3), delay_ms = (if i = 0 then 2 else 6)\<rparr>
      else Inl SocketTimeout)"

definition out1 :: "Stats list" where
  "out1 = [\<lparr>server = ''a'', ok = 2, fail = 0, avg_offset_ms = 2, std_offset_ms = 1,
            avg_delay_ms = 4, std_delay_ms = 2\<rparr>]"

definition tr1 :: "event list" where
  "tr1 = [Query 0 ''a'', Query 0 ''b'', Sleep (1/2), Query 1 ''a'', Query 1 ''b'']"

text \<open>The stubs of the test suite: one sample and then a validation failure; an
  unexpected \<^verbatim>\<open>RuntimeError\<close> on every call.\<close>

definition q_once :: query_fn where
  "q_once i j s t =
     (if i = 0 then Inr \<lparr>offset_ms = 1, delay_ms = 2\<rparr> else Inl (NTPResponseError TooShort))"

definition q_boom :: query_fn where
  "q_boom i j s t = Inl (RuntimeError ''unexpected'')"

definition stats_s1 :: Stats where
  "stats_s1 = \<lparr>server = ''s1'', ok = 1, fail = 0, avg_offset_ms = 1, std_offset_ms = 0,
               avg_delay_ms = 2, std_delay_ms = 0\<rparr>"

text \<open>The statistics and rankings of the test suite.\<close>

definition stats3 :: "Stats list" where
  "stats3 =
     [\<lparr>server = ''base'', ok = 5, fail = 0, avg_offset_ms = 0, std_offset_ms = 2/10,
       avg_delay_ms = 10, std_delay_ms = 1\<rparr>,
      \<lparr>server = ''fast'', ok = 5, fail = 0, avg_offset_ms = 1, std_offset_ms = 1/10,
       avg_delay_ms = 5, std_delay_ms = 1\<rparr>,
      \<lparr>server = ''slow'', ok = 5, fail = 0, avg_offset_ms = 1/2, std_offset_ms = 1/10,
       avg_delay_ms = 200, std_delay_ms = 1\<rparr>]"

definition ranked3 :: "Ranked list" where
  "ranked3 =
     [\<lparr>server = ''fast'', ok = 5, fail = 0, avg_offset_ms = 1, std_offset_ms = 1/10,
       avg_delay_ms = 5, std_delay_ms = 1, vs_base_ms = 1, score = 205/100, grade_str = ''A''\<rparr>,
      \<lparr>server = ''base'', ok = 5, fail = 0, avg_offset_ms = 0, std_offset_ms = 2/10,
       avg_delay_ms = 10, std_delay_ms = 1, vs_base_ms = 0, score = 21/10, grade_str = ''A''\<rparr>]"

definition low_ok :: Ranked where
  "low_ok = \<lparr>server = ''low-ok'', ok = 1, fail = 4, avg_offset_ms = 1, std_offset_ms = 0,
             avg_delay_ms = 1, std_delay_ms = 0, vs_base_ms = 1, score = 1, grade_str = ''A''\<rparr>"

definition good :: Ranked where
  "good = \<lparr>server = ''good'', ok = 4, fail = 1, avg_offset_ms = 2, std_offset_ms = 0,
           avg_delay_ms = 1, std_delay_ms = 0, vs_base_ms = 2, score = 2, grade_str = ''A''\<rparr>"

definition ranked_test :: "Ranked list" where
  "ranked_test =
     [\<lparr>server = ''base'', ok = 5, fail = 0, avg_offset_ms = 0, std_offset_ms = 0,
       avg_delay_ms = 1, std_delay_ms = 0, vs_base_ms = 0, score = 0, grade_str = ''A''\<rparr>,
      low_ok, good]"

section \<open>Decoding lemmas\<close>

lemma be_uint32_at:
  assumes "k + 4 \<le> length data"
  shows "be_uint32 (take 4 (drop k data)) = word_at data k"
proof -
  have "take 4 (drop k data) = [data ! k, data ! (k + 1), data ! (k + 2), data ! (k + 3)]"
    using assms
    by (auto simp: list_eq_iff_nth_eq nth_Cons' numeral_eq_Suc less_Suc_eq_0_disj add.commute)
  then show ?thesis by (simp add: be_uint32_def word_at_def)
qed

lemma mode_bits: "((w::byte) AND 7 = 4) \<longleftrightarrow> (unat w mod 8 = 4)"
proof -
  have "w AND 7 = take_bit 3 w" by (simp add: take_bit_eq_mask mask_eq_exp_minus_1)
  then have "unat (w AND 7) = unat w mod 8"
    by (simp add: unsigned_take_bit_eq take_bit_eq_mod unat_mod)
  moreover have "(w AND 7 = 4) \<longleftrightarrow> (unat (w AND 7) = unat (4::byte))"
    by (simp only: word_unat_eq_iff)
  ultimately show ?thesis by simp
qed

lemma leap_bits: "(drop_bit 6 (w::byte) AND 3 = 3) \<longleftrightarrow> (unat w div 64 = 3)"
proof -
  have "drop_bit 6 w AND 3 = take_bit 2 (drop_bit 6 w)"
    by (simp add: take_bit_eq_mask mask_eq_exp_minus_1)
  then have "unat (drop_bit 6 w AND 3) = (unat w div 64) mod 4"
    by (simp add: unsigned_take_bit_eq take_bit_eq_mod unsigned_drop_bit_eq drop_bit_eq_div
        unat_mod unat_div)
  moreover have "unat w < 256" using unsigned_less [of w] by simp
  then have "unat w div 64 < 4" by simp
  moreover have "(drop_bit 6 w AND 3 = 3) \<longleftrightarrow> (unat (drop_bit 6 w AND 3) = unat (3::byte))"
    by (simp only: word_unat_eq_iff)
  ultimately show ?thesis by simp
qed

lemma unpack_originate:
  assumes "48 \<le> length data"
  shows "struct_unpack 2 (take 8 (drop 24 data)) = Inr [word_at data 24, word_at data 28]"
proof -
  have a: "take 4 (take 8 (drop 24 data)) = take 4 (drop 24 data)" by simp
  have b: "take 4 (drop 4 (take 8 (drop 24 data))) = take 4 (drop 28 data)"
    by (simp add: drop_take)
  have c: "[0..<2] = [0, Suc 0]" by (simp add: upt_rec)
  show ?thesis using assms
    by (simp add: struct_unpack_def a b c be_uint32_at)
qed

lemma unpack12_nth:
  assumes "48 \<le> length data" "k < 12"
  shows "\<exists>u. struct_unpack 12 (take 48 data) = Inr u \<and> u ! k = word_at data (4 * k)"
proof -
  have "take 4 (drop (4 * k) (take 48 data)) = take 4 (drop (4 * k) data)"
    using assms by (simp add: drop_take min_def)
  moreover have "4 * k + 4 \<le> length data" using assms by simp
  ultimately show ?thesis using assms
    by (simp add: struct_unpack_def be_uint32_at)
qed

text \<open>The sample computed from the twelve words of a reply, in terms of its bytes.\<close>

lemma sample_of_words:
  assumes len: "48 \<le> length data"
  shows "\<exists>u. struct_unpack 12 (take 48 data) = Inr u
           \<and> sample_of t1 t4 u =
               \<lparr>offset_ms =
                  (((real (word_at data 32) + real (word_at data 36) / 2 ^ 32 - 2208988800 - t1)
                    + (real (word_at data 40) + real (word_at data 44) / 2 ^ 32 - 2208988800 - t4))
                   / 2) * 1000,
                delay_ms =
                  ((t4 - t1)
                   - (real (word_at data 40) + real (word_at data 44) / 2 ^ 32 - 2208988800
                      - (real (word_at data 32) + real (word_at data 36) / 2 ^ 32 - 2208988800)))
                  * 1000\<rparr>"
proof -
  obtain u where u: "struct_unpack 12 (take 48 data) = Inr u"
    using unpack12_nth [OF len, of 0] by auto
  have n8: "u ! 8 = word_at data 32" using unpack12_nth [OF len, of 8] u by simp
  have n9: "u ! 9 = word_at data 36" using unpack12_nth [OF len, of 9] u by simp
  have n10: "u ! 10 = word_at data 40" using unpack12_nth [OF len, of 10] u by simp
  have n11: "u ! 11 = word_at data 44" using unpack12_nth [OF len, of 11] u by simp
  show ?thesis
    using u by (simp add: sample_of_def Let_def ntp_to_system_def NTP_DELTA_def n8 n9 n10 n11)
qed

lemma validate_ok_length:
  assumes "validate_ntp_response data a b = Inr ()"
  shows "48 \<le> length data"
  using assms by (auto simp: validate_ntp_response_def split: if_splits)

lemma reply0_valid: "validate_ntp_response reply0 2208988800 0 = Inr ()"
  by (simp add: validate_ntp_response_def reply0_def struct_unpack_def be_uint32_def upt_rec
      Let_def)

lemma pack0:
  "struct_pack_into_II request_packet 40 2208988800 0 =
     Inr (take 40 request_packet @ pack_uint32 2208988800 @ pack_uint32 0
            @ drop 48 request_packet)"
  by (simp add: struct_pack_into_II_def request_packet_def)

lemma words0:
  "word_at reply0 32 = 2208988801" "word_at reply0 36 = 0"
  "word_at reply0 40 = 2208988801" "word_at reply0 44 = 2147483648"
  by (simp_all add: word_at_def reply0_def nth_append nth_Cons')

lemma words3:
  "word_at reply3 32 = 2208988801" "word_at reply3 36 = 0"
  "word_at reply3 40 = 2208988801" "word_at reply3 44 = 2147483648"
  by (simp_all add: word_at_def reply3_def reply0_def nth_append nth_Cons')

lemma length_reply3: "length reply3 = 48"
  by (simp add: reply3_def reply0_def)

section \<open>The four-timestamp equations\<close>

text \<open>
  Claim C2. When the socket opens, the request is packed and sent, a reply \<open>data\<close> arrives
  at local time \<open>t4\<close> and passes validation, \<^verbatim>\<open>query_ntp\<close> of core.py returns the sample
  with \<open>delay_ms = ((t4 - t1) - (T3 - T2)) * 1000\<close> and
  \<open>offset_ms = (((T2 - t1) + (T3 - t4)) / 2) * 1000\<close>, where \<open>T2\<close> and \<open>T3\<close> are
  decoded from bytes 32-39 and 40-47 as seconds plus fraction over \<open>2^32\<close> from two
  big-endian words each, less 2208988800.
\<close>

theorem query_ntp_sample:
  assumes sock: "socket_open env = None" and tmo: "0 \<le> timeout"
    and t1: "t1 = time_send env"
    and sec: "req_sec = py_int (system_to_ntp t1)"
    and frc: "req_frac = py_int ((system_to_ntp t1 - of_int req_sec) * 2 ^ 32)"
    and pack: "struct_pack_into_II request_packet 40 req_sec req_frac = Inr packet"
    and recv: "exchange env host timeout packet = NetReply data t4"
    and valid: "validate_ntp_response data req_sec req_frac = Inr ()"
    and T2: "T2 = real (word_at data 32) + real (word_at data 36) / 2 ^ 32 - 2208988800"
    and T3: "T3 = real (word_at data 40) + real (word_at data 44) / 2 ^ 32 - 2208988800"
  shows "query_ntp env host timeout =
           Inr \<lparr>offset_ms = (((T2 - t1) + (T3 - t4)) / 2) * 1000,
                delay_ms = ((t4 - t1) - (T3 - T2)) * 1000\<rparr>"
proof -
  have len: "48 \<le> length data" using valid by (rule validate_ok_length)
  from sample_of_words [OF len, of t1 t4] obtain u where
    u: "struct_unpack 12 (take 48 data) = Inr u"
    and s: "sample_of t1 t4 u =
      \<lparr>offset_ms = (((T2 - t1) + (T3 - t4)) / 2) * 1000,
       delay_ms = ((t4 - t1) - (T3 - T2)) * 1000\<rparr>"
    unfolding T2 T3 by blast
  have "query_ntp env host timeout = Inr (sample_of t1 t4 u)"
    using sock tmo t1 sec frc pack recv valid u
    by (simp add: query_ntp_def Let_def)
  with s show ?thesis by simp
qed

theorem query_ntp_sample_witness:
  "query_ntp env0 ''ntp.kriss.re.kr'' 2 = Inr \<lparr>offset_ms = 250, delay_ms = 1500\<rparr>"
proof -
  have "query_ntp env0 ''ntp.kriss.re.kr'' 2 =
           Inr \<lparr>offset_ms = (((1 - 0) + (3/2 - 2)) / 2) * 1000,
                delay_ms = ((2 - 0) - (3/2 - 1)) * 1000\<rparr>"
    by (rule query_ntp_sample [where req_sec = 2208988800 and req_frac = 0 and data = reply0])
       (simp_all add: env0_def system_to_ntp_def NTP_DELTA_def py_int_def pack0 reply0_valid
          words0)
  then show ?thesis by simp
qed

section \<open>The sampling loops\<close>

lemma successes_of_simps [simp]:
  "successes_of [] s = []"
  "successes_of ((i, s', Inr x) # as) s = (if s' = s then [x] else []) @ successes_of as s"
  "successes_of ((i, s', Inl e) # as) s = successes_of as s"
  "successes_of (as @ bs) s = successes_of as s @ successes_of bs s"
  by (simp_all add: successes_of_def)

lemma failures_of_simps [simp]:
  "failures_of [] s = 0"
  "failures_of ((i, s', Inr x) # as) s = failures_of as s"
  "failures_of ((i, s', Inl e) # as) s = (if s' = s then 1 else 0) + failures_of as s"
  "failures_of (as @ bs) s = failures_of as s + failures_of bs s"
  by (simp_all add: failures_of_def)

lemma queries_of_simps [simp]:
  "queries_of [] = []"
  "queries_of (Query i s # tr) = (i, s) # queries_of tr"
  "queries_of (Sleep d # tr) = queries_of tr"
  "queries_of (tr @ tr') = queries_of tr @ queries_of tr'"
  by (simp_all add: queries_of_def)

lemma queries_of_map_Query:
  "queries_of (map (\<lambda>(i, s, r). Query i s) xs) = map (\<lambda>(i, s, r). (i, s)) xs"
  by (induction xs) auto

lemma attempts_from_simps [simp]:
  "attempts_from q t i j [] = []"
  "attempts_from q t i j (s # ss) = (i, s, q i j s t) # attempts_from q t i (Suc j) ss"
  by (simp_all add: attempts_from_def)

lemma all_attempts_simps [simp]:
  "all_attempts q t servers [] = []"
  "all_attempts q t servers (i # rounds) =
     attempts_from q t i 0 servers @ all_attempts q t servers rounds"
  by (simp_all add: all_attempts_def)

lemma find_append_first:
  "find P (xs @ ys) = (case find P xs of None \<Rightarrow> find P ys | Some x \<Rightarrow> Some x)"
  by (induction xs) auto

lemma find_None_all: "find P xs = None \<longleftrightarrow> (\<forall>x \<in> set xs. \<not> P x)"
  by (induction xs) auto

lemma find_uncaught_form:
  assumes "find (uncaught c) as = Some a"
  shows "\<exists>i s e. a = (i, s, Inl e) \<and> \<not> c e"
proof -
  from assms have "uncaught c a" by (auto simp: find_Some_iff)
  then show ?thesis by (cases a) (auto simp: uncaught_def split: sum.splits)
qed

lemma performed_append:
  "performed c (as @ bs) =
     (if find (uncaught c) as = None then as @ performed c bs else performed c as)"
  by (induction as) auto

lemma map_option_dom: "(\<forall>s. m' s = map_option (f s) (m s)) \<Longrightarrow> dom m' = dom m"
  by (auto simp: dom_def)

text \<open>One attempt whose error, if any, the handler catches: the sample is appended or
  the failure counted, and nothing else changes.\<close>

lemma attempt_caught:
  assumes "raw st s = Some xs" "fails st s = Some n" "\<not> uncaught c (i, s, q i j s t)"
  shows "\<exists>st'. attempt c q t i j s st = Inr st'
           \<and> raw st' = (raw st)(s \<mapsto> xs @ successes_of [(i, s, q i j s t)] s)
           \<and> fails st' = (fails st)(s \<mapsto> n + int (failures_of [(i, s, q i j s t)] s))
           \<and> trace st' = trace st @ [Query i s]"
proof (cases "q i j s t")
  case (Inl e)
  with assms have "c e" by (simp add: uncaught_def)
  with Inl assms(1,2) show ?thesis
    by (simp add: attempt_def count_failure_def Let_def fun_upd_idem)
next
  case (Inr x)
  with assms(1,2) show ?thesis
    by (simp add: attempt_def Let_def fun_upd_idem)
qed

lemma attempt_uncaught:
  assumes "raw st s = Some xs" "q i j s t = Inl e" "\<not> c e"
  shows "attempt c q t i j s st = Inl (e, trace st @ [Query i s])"
  using assms by (simp add: attempt_def Let_def)

lemma run_servers_caught:
  assumes "set ss \<subseteq> dom (raw st)" "set ss \<subseteq> dom (fails st)"
    and "\<forall>a \<in> set (attempts_from q t i j ss). \<not> uncaught c a"
  shows "\<exists>st'. run_servers c q t i j ss st = Inr st'
           \<and> (\<forall>s. raw st' s =
                  map_option (\<lambda>xs. xs @ successes_of (attempts_from q t i j ss) s) (raw st s))
           \<and> (\<forall>s. fails st' s =
                  map_option (\<lambda>n. n + int (failures_of (attempts_from q t i j ss) s)) (fails st s))
           \<and> trace st' = trace st @ map (\<lambda>(i, s, r). Query i s) (attempts_from q t i j ss)"
  using assms
proof (induction ss arbitrary: j st)
  case Nil
  show ?case by (simp add: option.map_ident)
next
  case (Cons s ss)
  from Cons.prems obtain xs n where xs: "raw st s = Some xs" and n: "fails st s = Some n"
    by auto
  from Cons.prems(3) have nc: "\<not> uncaught c (i, s, q i j s t)" by simp
  from attempt_caught [where q = q and j = j and t = t and i = i and c = c, OF xs n nc]
  obtain st1 where
    a: "attempt c q t i j s st = Inr st1"
    and r1: "raw st1 = (raw st)(s \<mapsto> xs @ successes_of [(i, s, q i j s t)] s)"
    and f1: "fails st1 = (fails st)(s \<mapsto> n + int (failures_of [(i, s, q i j s t)] s))"
    and t1: "trace st1 = trace st @ [Query i s]" by blast
  have d1: "set ss \<subseteq> dom (raw st1)" "set ss \<subseteq> dom (fails st1)"
    using Cons.prems(1,2) by (auto simp: r1 f1)
  have c1: "\<forall>a \<in> set (attempts_from q t i (Suc j) ss). \<not> uncaught c a"
    using Cons.prems(3) by simp
  from Cons.IH [OF d1 c1] obtain st2 where
    b: "run_servers c q t i (Suc j) ss st1 = Inr st2"
    and r2: "\<forall>s'. raw st2 s' =
        map_option (\<lambda>xs. xs @ successes_of (attempts_from q t i (Suc j) ss) s') (raw st1 s')"
    and f2: "\<forall>s'. fails st2 s' =
        map_option (\<lambda>n. n + int (failures_of (attempts_from q t i (Suc j) ss) s')) (fails st1 s')"
    and t2: "trace st2 = trace st1 @ map (\<lambda>(i, s, r). Query i s) (attempts_from q t i (Suc j) ss)"
    by blast
  have "run_servers c q t i j (s # ss) st = Inr st2" using a b by simp
  moreover have "\<forall>s'. raw st2 s' =
      map_option (\<lambda>xs. xs @ successes_of (attempts_from q t i j (s # ss)) s') (raw st s')"
  proof
    fix s'
    show "raw st2 s' =
        map_option (\<lambda>xs. xs @ successes_of (attempts_from q t i j (s # ss)) s') (raw st s')"
      using r2 [rule_format, of s'] xs
      by (cases "q i j s t"; cases "s' = s"; cases "raw st s'"; simp add: r1)
  qed
  moreover have "\<forall>s'. fails st2 s' =
      map_option (\<lambda>n. n + int (failures_of (attempts_from q t i j (s # ss)) s')) (fails st s')"
  proof
    fix s'
    show "fails st2 s' =
        map_option (\<lambda>n. n + int (failures_of (attempts_from q t i j (s # ss)) s')) (fails st s')"
      using f2 [rule_format, of s'] n
      by (cases "q i j s t"; cases "s' = s"; cases "fails st s'"; simp add: f1)
  qed
  moreover have "trace st2 =
      trace st @ map (\<lambda>(i, s, r). Query i s) (attempts_from q t i j (s # ss))"
    using t1 t2 by simp
  ultimately show ?case by blast
qed

lemma run_servers_uncaught:
  assumes "set ss \<subseteq> dom (raw st)" "set ss \<subseteq> dom (fails st)"
    and "find (uncaught c) (attempts_from q t i j ss) = Some (i', s', Inl e)"
  shows "run_servers c q t i j ss st =
           Inl (e, trace st @ map (\<lambda>(i, s, r). Query i s)
                               (performed c (attempts_from q t i j ss)))"
  using assms
proof (induction ss arbitrary: j st)
  case Nil
  then show ?case by simp
next
  case (Cons s ss)
  from Cons.prems obtain xs n where xs: "raw st s = Some xs" and n: "fails st s = Some n"
    by auto
  show ?case
  proof (cases "uncaught c (i, s, q i j s t)")
    case True
    with Cons.prems(3) have "(i, s, q i j s t) = (i', s', Inl e)" by auto
    then have e: "q i j s t = Inl e" by auto
    with True have "\<not> c e" by (simp add: uncaught_def)
    with True e attempt_uncaught [where q = q and j = j and t = t and i = i and c = c, OF xs e]
    show ?thesis by simp
  next
    case False
    from attempt_caught [where q = q and j = j and t = t and i = i and c = c, OF xs n False]
    obtain st1 where
      a: "attempt c q t i j s st = Inr st1"
      and r1: "raw st1 = (raw st)(s \<mapsto> xs @ successes_of [(i, s, q i j s t)] s)"
      and f1: "fails st1 = (fails st)(s \<mapsto> n + int (failures_of [(i, s, q i j s t)] s))"
      and t1: "trace st1 = trace st @ [Query i s]" by blast
    have d1: "set ss \<subseteq> dom (raw st1)" "set ss \<subseteq> dom (fails st1)"
      using Cons.prems(1,2) by (auto simp: r1 f1)
    have c1: "find (uncaught c) (attempts_from q t i (Suc j) ss) = Some (i', s', Inl e)"
      using Cons.prems(3) False by simp
    show ?thesis using Cons.IH [OF d1 c1] a False t1 by simp
  qed
qed

lemma run_rounds_caught:
  assumes "set servers \<subseteq> dom (raw st)" "set servers \<subseteq> dom (fails st)"
    and "\<forall>a \<in> set (all_attempts q t servers rounds). \<not> uncaught c a"
  shows "\<exists>st'. run_rounds c q servers samples t d rounds st = Inr st'
           \<and> (\<forall>s. raw st' s =
                  map_option (\<lambda>xs. xs @ successes_of (all_attempts q t servers rounds) s) (raw st s))
           \<and> (\<forall>s. fails st' s =
                  map_option (\<lambda>n. n + int (failures_of (all_attempts q t servers rounds) s))
                    (fails st s))
           \<and> queries_of (trace st') =
               queries_of (trace st) @ map (\<lambda>(i, s, r). (i, s)) (all_attempts q t servers rounds)"
  using assms
proof (induction rounds arbitrary: st)
  case Nil
  show ?case by (simp add: option.map_ident)
next
  case (Cons i rounds)
  let ?A = "attempts_from q t i 0 servers"
  let ?B = "all_attempts q t servers rounds"
  have cA: "\<forall>a \<in> set ?A. \<not> uncaught c a" and cB: "\<forall>a \<in> set ?B. \<not> uncaught c a"
    using Cons.prems(3) by auto
  from run_servers_caught [OF Cons.prems(1,2) cA] obtain st1 where
    a: "run_servers c q t i 0 servers st = Inr st1"
    and r1: "\<forall>s. raw st1 s = map_option (\<lambda>xs. xs @ successes_of ?A s) (raw st s)"
    and f1: "\<forall>s. fails st1 s = map_option (\<lambda>n. n + int (failures_of ?A s)) (fails st s)"
    and t1: "trace st1 = trace st @ map (\<lambda>(i, s, r). Query i s) ?A" by blast
  define st1' where "st1' = (if int i \<noteq> samples - 1 \<and> d > 0
             then st1\<lparr>trace := trace st1 @ [Sleep d]\<rparr> else st1)"
  have r1': "raw st1' = raw st1" and f1': "fails st1' = fails st1"
    and t1': "queries_of (trace st1') = queries_of (trace st1)"
    by (simp_all add: st1'_def)
  have d1: "set servers \<subseteq> dom (raw st1')" "set servers \<subseteq> dom (fails st1')"
    using Cons.prems(1,2) map_option_dom [OF r1] map_option_dom [OF f1]
    by (simp_all add: r1' f1')
  from Cons.IH [OF d1 cB] obtain st2 where
    b: "run_rounds c q servers samples t d rounds st1' = Inr st2"
    and r2: "\<forall>s. raw st2 s = map_option (\<lambda>xs. xs @ successes_of ?B s) (raw st1' s)"
    and f2: "\<forall>s. fails st2 s = map_option (\<lambda>n. n + int (failures_of ?B s)) (fails st1' s)"
    and t2: "queries_of (trace st2) = queries_of (trace st1') @ map (\<lambda>(i, s, r). (i, s)) ?B"
    by blast
  have "run_rounds c q servers samples t d (i # rounds) st = Inr st2"
    using a b by (simp add: st1'_def)
  moreover have "\<forall>s. raw st2 s =
      map_option (\<lambda>xs. xs @ successes_of (all_attempts q t servers (i # rounds)) s) (raw st s)"
    using r1 r2 by (simp add: r1' option.map_comp comp_def)
  moreover have "\<forall>s. fails st2 s =
      map_option (\<lambda>n. n + int (failures_of (all_attempts q t servers (i # rounds)) s)) (fails st s)"
    using f1 f2 by (simp add: f1' option.map_comp comp_def add.assoc)
  moreover have "queries_of (trace st2) =
      queries_of (trace st) @ map (\<lambda>(i, s, r). (i, s)) (all_attempts q t servers (i # rounds))"
    using t1 t2 t1' by (simp add: queries_of_map_Query)
  ultimately show ?case by blast
qed

lemma run_rounds_uncaught:
  assumes "set servers \<subseteq> dom (raw st)" "set servers \<subseteq> dom (fails st)"
    and "find (uncaught c) (all_attempts q t servers rounds) = Some (i', s', Inl e)"
  shows "\<exists>tr. run_rounds c q servers samples t d rounds st = Inl (e, tr)
           \<and> queries_of tr =
               queries_of (trace st)
                 @ map (\<lambda>(i, s, r). (i, s)) (performed c (all_attempts q t servers rounds))"
  using assms
proof (induction rounds arbitrary: st)
  case Nil
  then show ?case by simp
next
  case (Cons i rounds)
  let ?A = "attempts_from q t i 0 servers"
  let ?B = "all_attempts q t servers rounds"
  show ?case
  proof (cases "find (uncaught c) ?A")
    case (Some a')
    with Cons.prems(3) have fa: "find (uncaught c) ?A = Some (i', s', Inl e)"
      by (simp add: find_append_first)
    show ?thesis
      using run_servers_uncaught [OF Cons.prems(1,2) fa] fa
      by (simp add: performed_append queries_of_map_Query)
  next
    case None
    then have cA: "\<forall>a \<in> set ?A. \<not> uncaught c a" by (simp add: find_None_all)
    from None Cons.prems(3) have fB: "find (uncaught c) ?B = Some (i', s', Inl e)"
      by (simp add: find_append_first)
    from run_servers_caught [OF Cons.prems(1,2) cA] obtain st1 where
      a: "run_servers c q t i 0 servers st = Inr st1"
      and r1: "\<forall>s. raw st1 s = map_option (\<lambda>xs. xs @ successes_of ?A s) (raw st s)"
      and f1: "\<forall>s. fails st1 s = map_option (\<lambda>n. n + int (failures_of ?A s)) (fails st s)"
      and t1: "trace st1 = trace st @ map (\<lambda>(i, s, r). Query i s) ?A" by blast
    define st1' where "st1' = (if int i \<noteq> samples - 1 \<and> d > 0
             then st1\<lparr>trace := trace st1 @ [Sleep d]\<rparr> else st1)"
    have r1': "raw st1' = raw st1" and f1': "fails st1' = fails st1"
      and t1': "queries_of (trace st1') = queries_of (trace st1)"
      by (simp_all add: st1'_def)
    have d1: "set servers \<subseteq> dom (raw st1')" "set servers \<subseteq> dom (fails st1')"
      using Cons.prems(1,2) map_option_dom [OF r1] map_option_dom [OF f1]
      by (simp_all add: r1' f1')
    from Cons.IH [OF d1 fB] obtain tr where
      b: "run_rounds c q servers samples t d rounds st1' = Inl (e, tr)"
      and t2: "queries_of tr =
          queries_of (trace st1') @ map (\<lambda>(i, s, r). (i, s)) (performed c ?B)"
      by blast
    have "run_rounds c q servers samples t d (i # rounds) st = Inl (e, tr)"
      using a b by (simp add: st1'_def)
    moreover have "queries_of tr =
        queries_of (trace st)
          @ map (\<lambda>(i, s, r). (i, s)) (performed c (all_attempts q t servers (i # rounds)))"
      using t1 t2 t1' None by (simp add: performed_append queries_of_map_Query)
    ultimately show ?thesis by blast
  qed
qed

section \<open>The output loop\<close>

lemma pstd_single: "pstd [x] = 0"
  by (simp add: pstd_def amean_def)

lemma mean_amean: "xs \<noteq> [] \<Longrightarrow> mean xs = Inr (amean xs)"
  by (simp add: mean_def amean_def)

lemma pstdev_pstd: "xs \<noteq> [] \<Longrightarrow> pstdev xs = Inr (pstd xs)"
  by (simp add: pstdev_def mean_def pstd_def amean_def)

lemma stats_row_eq:
  assumes "raw st s = Some xs" "fails st s = Some fl"
  shows "stats_row st s = Inr (if xs = [] then None else Some (stats_of s xs fl))"
proof (cases xs)
  case Nil
  with assms show ?thesis by (simp add: stats_row_def)
next
  case (Cons x ys)
  show ?thesis
  proof (cases ys)
    case Nil
    with Cons assms show ?thesis
      by (simp add: stats_row_def stats_of_def mean_amean pstd_single)
  next
    case (Cons y zs)
    with \<open>xs = x # ys\<close> assms show ?thesis
      by (simp add: stats_row_def stats_of_def mean_amean pstdev_pstd Let_def)
  qed
qed

lemma build_out_eq:
  assumes "\<forall>s \<in> set ss. raw st s = Some (R s) \<and> fails st s = Some (F s)"
  shows "build_out st ss out =
           Inr (out @ map (\<lambda>s. stats_of s (R s) (F s)) (filter (\<lambda>s. R s \<noteq> []) ss))"
  using assms
proof (induction ss arbitrary: out)
  case Nil
  show ?case by simp
next
  case (Cons s ss)
  then have "stats_row st s = Inr (if R s = [] then None else Some (stats_of s (R s) (F s)))"
    by (simp add: stats_row_eq)
  with Cons show ?case by simp
qed

lemma fold_upd_const:
  "fold (\<lambda>s m. m(s \<mapsto> v)) ss m0 = (\<lambda>s'. if s' \<in> set ss then Some v else m0 s')"
  by (induction ss arbitrary: m0) (auto simp: fun_eq_iff)

section \<open>The sampling run as a whole\<close>

text \<open>When the handler catches every error of the run, every attempt is made and the
  rows are built from the tallies, in the order of the server list.\<close>

lemma sampling_caught:
  assumes "\<forall>a \<in> set (run_attempts q t servers samples). \<not> uncaught c a"
  shows "\<exists>tr. sampling c q servers samples t d =
           (tr, Inr (map (\<lambda>s. stats_of s (successes_of (run_attempts q t servers samples) s)
                                   (int (failures_of (run_attempts q t servers samples) s)))
                      (filter (\<lambda>s. successes_of (run_attempts q t servers samples) s \<noteq> [])
                         servers)))
         \<and> queries_of tr = map (\<lambda>(i, s, r). (i, s)) (run_attempts q t servers samples)"
proof -
  let ?A = "run_attempts q t servers samples"
  define st0 :: acc where "st0 = \<lparr>raw = fold (\<lambda>s m. m(s \<mapsto> [])) servers Map.empty,
                 fails = fold (\<lambda>s m. m(s \<mapsto> 0)) servers Map.empty, trace = []\<rparr>"
  have r0: "raw st0 = (\<lambda>s. if s \<in> set servers then Some [] else None)"
    and f0: "fails st0 = (\<lambda>s. if s \<in> set servers then Some 0 else None)"
    and t0: "trace st0 = []"
    by (simp_all add: st0_def fold_upd_const)
  have d0: "set servers \<subseteq> dom (raw st0)" "set servers \<subseteq> dom (fails st0)"
    by (auto simp: r0 f0)
  have cA: "\<forall>a \<in> set (all_attempts q t servers [0..<nat samples]). \<not> uncaught c a"
    using assms by (simp add: run_attempts_def)
  from run_rounds_caught [OF d0 cA, of samples d] obtain st' where
    a: "run_rounds c q servers samples t d [0..<nat samples] st0 = Inr st'"
    and r: "\<forall>s. raw st' s = map_option (\<lambda>xs. xs @ successes_of ?A s) (raw st0 s)"
    and f: "\<forall>s. fails st' s = map_option (\<lambda>n. n + int (failures_of ?A s)) (fails st0 s)"
    and tq: "queries_of (trace st') = queries_of (trace st0) @ map (\<lambda>(i, s, r). (i, s)) ?A"
    unfolding run_attempts_def by blast
  have keys: "\<forall>s \<in> set servers. raw st' s = Some (successes_of ?A s)
                \<and> fails st' s = Some (int (failures_of ?A s))"
    using r f by (simp add: r0 f0)
  have "sampling c q servers samples t d = (trace st', build_out st' servers [])"
    using a by (simp add: sampling_def st0_def)
  then show ?thesis using build_out_eq [OF keys, of "[]"] tq t0 by simp
qed

text \<open>When some error is not caught, the first such error is the result and the attempt
  that raised it is the last one made.\<close>

lemma sampling_uncaught:
  assumes "find (uncaught c) (run_attempts q t servers samples) = Some (i, s, Inl e)"
  shows "\<exists>tr. sampling c q servers samples t d = (tr, Inl e)
         \<and> queries_of tr =
             map (\<lambda>(i, s, r). (i, s)) (performed c (run_attempts q t servers samples))"
proof -
  define st0 :: acc where "st0 = \<lparr>raw = fold (\<lambda>s m. m(s \<mapsto> [])) servers Map.empty,
                 fails = fold (\<lambda>s m. m(s \<mapsto> 0)) servers Map.empty, trace = []\<rparr>"
  have d0: "set servers \<subseteq> dom (raw st0)" "set servers \<subseteq> dom (fails st0)"
    by (auto simp: st0_def fold_upd_const)
  have fA: "find (uncaught c) (all_attempts q t servers [0..<nat samples]) = Some (i, s, Inl e)"
    using assms by (simp add: run_attempts_def)
  from run_rounds_uncaught [OF d0 fA, of samples d] obtain tr where
    a: "run_rounds c q servers samples t d [0..<nat samples] st0 = Inl (e, tr)"
    and tq: "queries_of tr = queries_of (trace st0)
        @ map (\<lambda>(i, s, r). (i, s)) (performed c (run_attempts q t servers samples))"
    unfolding run_attempts_def by blast
  have "sampling c q servers samples t d = (tr, Inl e)"
    using a by (simp add: sampling_def st0_def)
  then show ?thesis using tq by (simp add: st0_def)
qed

lemma sampling_Inr_caught:
  assumes "sampling c q servers samples t d = (tr, Inr out)"
  shows "\<forall>a \<in> set (run_attempts q t servers samples). \<not> uncaught c a"
proof (cases "find (uncaught c) (run_attempts q t servers samples)")
  case None
  then show ?thesis by (simp add: find_None_all)
next
  case (Some a)
  from find_uncaught_form [OF Some] obtain i s e where "a = (i, s, Inl e)" by blast
  with Some sampling_uncaught [of c q t servers samples i s e d] assms show ?thesis by auto
qed

lemma tally_length:
  "length (successes_of as s) + failures_of as s = length (filter (\<lambda>(i, s', r). s' = s) as)"
proof (induction as)
  case Nil
  show ?case by simp
next
  case (Cons a as)
  obtain i s' r where a: "a = (i, s', r)" by (cases a)
  show ?case using Cons by (cases r) (auto simp: a)
qed

lemma attempts_from_count:
  "length (filter (\<lambda>(i, s', r). s' = s) (attempts_from q t i j ss)) =
     length (filter (\<lambda>s'. s' = s) ss)"
  by (induction ss arbitrary: j) auto

lemma all_attempts_count:
  "length (filter (\<lambda>(i, s', r). s' = s) (all_attempts q t servers rounds))
     = length rounds * length (filter (\<lambda>s'. s' = s) servers)"
  by (induction rounds) (auto simp: attempts_from_count)

lemma distinct_count:
  "distinct ss \<Longrightarrow> length (filter (\<lambda>s'. s' = s) ss) = (if s \<in> set ss then 1 else 0)"
  by (induction ss) auto

lemma collect_stats_Inr:
  assumes "collect_stats q servers samples timeout sleep_between = (tr, Inr out)"
  shows "1 \<le> samples"
    and "sampling caught q servers samples timeout sleep_between = (tr, Inr out)"
  using assms by (auto simp: collect_stats_def split: if_splits)

lemma collect_stats_rows:
  assumes "collect_stats q servers samples timeout sleep_between = (tr, Inr out)"
  shows "out = map (\<lambda>s. stats_of s (successes_of (run_attempts q timeout servers samples) s)
                          (int (failures_of (run_attempts q timeout servers samples) s)))
                 (filter (\<lambda>s. successes_of (run_attempts q timeout servers samples) s \<noteq> [])
                    servers)"
proof -
  note s = collect_stats_Inr(2) [OF assms]
  from sampling_caught [OF sampling_Inr_caught [OF s], of sleep_between] s
  show ?thesis by auto
qed

lemma upt2: "[0..<2] = [0, Suc 0]"
  by (simp add: upt_rec numeral_2_eq_2)

lemma sqrt4: "sqrt 4 = 2"
  using real_sqrt_abs [of 2] by simp

lemma collect_q1: "collect_stats q1 [''a'', ''b''] 2 2 (1/2) = (tr1, Inr out1)"
  by (simp add: collect_stats_def sampling_def upt2 attempt_def count_failure_def q1_def
      stats_row_def mean_def pstdev_def Let_def tr1_def out1_def power2_eq_square sqrt4)

section \<open>Properties of collect\_stats\<close>

text \<open>
  Claim C3. When \<^verbatim>\<open>collect_stats\<close> of core.py returns a list, the servers of its
  entries are the servers of the input list that have at least one successful sample, in
  the order of the input list: one entry for each such position of the list, none for a
  server without a success. The averages of an entry are the arithmetic means of that
  server's successful samples and its deviations their population standard deviations,
  which are 0 for a server with exactly one success. When the server list has no
  duplicates, every server name has exactly one entry or none.
\<close>

theorem collect_stats_output:
  assumes "collect_stats q servers samples timeout sleep_between = (tr, Inr out)"
  shows "map server out =
           filter (\<lambda>s. successes_of (run_attempts q timeout servers samples) s \<noteq> []) servers
       \<and> (\<forall>r \<in> set out.
             avg_offset_ms r =
               amean (map offset_ms (successes_of (run_attempts q timeout servers samples) (server r)))
           \<and> avg_delay_ms r =
               amean (map delay_ms (successes_of (run_attempts q timeout servers samples) (server r)))
           \<and> std_offset_ms r =
               pstd (map offset_ms (successes_of (run_attempts q timeout servers samples) (server r)))
           \<and> std_delay_ms r =
               pstd (map delay_ms (successes_of (run_attempts q timeout servers samples) (server r)))
           \<and> (length (successes_of (run_attempts q timeout servers samples) (server r)) = 1
                \<longrightarrow> std_offset_ms r = 0 \<and> std_delay_ms r = 0))
       \<and> (distinct servers \<longrightarrow>
            (\<forall>s. length (filter (\<lambda>r. server r = s) out) =
                   (if s \<in> set servers
                       \<and> successes_of (run_attempts q timeout servers samples) s \<noteq> []
                    then 1 else 0)))"
proof -
  let ?S = "successes_of (run_attempts q timeout servers samples)"
  let ?F = "\<lambda>s. int (failures_of (run_attempts q timeout servers samples) s)"
  have out: "out = map (\<lambda>s. stats_of s (?S s) (?F s)) (filter (\<lambda>s. ?S s \<noteq> []) servers)"
    by (rule collect_stats_rows [OF assms])
  have srv: "map server out = filter (\<lambda>s. ?S s \<noteq> []) servers"
    by (simp add: out stats_of_def comp_def)
  have single: "pstd xs = 0" if "length xs = 1" for xs
    using that by (cases xs) (simp_all add: pstd_single)
  have rows: "\<forall>r \<in> set out.
             avg_offset_ms r = amean (map offset_ms (?S (server r)))
           \<and> avg_delay_ms r = amean (map delay_ms (?S (server r)))
           \<and> std_offset_ms r = pstd (map offset_ms (?S (server r)))
           \<and> std_delay_ms r = pstd (map delay_ms (?S (server r)))
           \<and> (length (?S (server r)) = 1 \<longrightarrow> std_offset_ms r = 0 \<and> std_delay_ms r = 0)"
    by (auto simp: out stats_of_def single)
  have "length (filter (\<lambda>r. server r = s) out) =
          (if s \<in> set servers \<and> ?S s \<noteq> [] then 1 else 0)" if d: "distinct servers" for s
  proof -
    have "length (filter (\<lambda>r. server r = s) out) =
            length (filter (\<lambda>s'. s' = s) (map server out))"
      by (simp add: filter_map comp_def)
    also have "\<dots> = (if s \<in> set (filter (\<lambda>s. ?S s \<noteq> []) servers) then 1 else 0)"
      unfolding srv by (rule distinct_count) (simp add: d)
    finally show ?thesis by simp
  qed
  with srv rows show ?thesis by blast
qed

theorem collect_stats_output_witness:
  "collect_stats q1 [''a'', ''b''] 2 2 (1/2) = (tr1, Inr out1)
   \<and> map server out1 = [''a'']
   \<and> successes_of (run_attempts q1 2 [''a'', ''b''] 2) ''a''
        = [\<lparr>offset_ms = 1, delay_ms = 2\<rparr>, \<lparr>offset_ms = 3, delay_ms = 6\<rparr>]
   \<and> successes_of (run_attempts q1 2 [''a'', ''b''] 2) ''b'' = []
   \<and> avg_offset_ms (hd out1) = amean [1, 3] \<and> std_offset_ms (hd out1) = pstd [1, 3]"
proof -
  have s: "successes_of (run_attempts q1 2 [''a'', ''b''] 2) ''a''
        = [\<lparr>offset_ms = 1, delay_ms = 2\<rparr>, \<lparr>offset_ms = 3, delay_ms = 6\<rparr>]"
     "successes_of (run_attempts q1 2 [''a'', ''b''] 2) ''b'' = []"
    by (simp_all add: run_attempts_def upt2 q1_def)
  show ?thesis
    using collect_stats_output [OF collect_q1] s collect_q1
    by (simp add: out1_def)
qed

text \<open>
  Claim C10. Over a list of distinct servers, every entry that \<^verbatim>\<open>collect_stats\<close> of
  core.py returns has \<open>ok + fail = samples\<close> and \<open>ok \<ge> 1\<close>.
\<close>

theorem collect_stats_counts:
  assumes "collect_stats q servers samples timeout sleep_between = (tr, Inr out)"
    and "distinct servers"
  shows "\<forall>r \<in> set out. ok r + fail r = samples \<and> 1 \<le> ok r"
proof
  fix r assume r: "r \<in> set out"
  let ?A = "run_attempts q timeout servers samples"
  note out = collect_stats_rows [OF assms(1)]
  from r obtain s where s: "s \<in> set servers" "successes_of ?A s \<noteq> []"
    and rs: "r = stats_of s (successes_of ?A s) (int (failures_of ?A s))"
    unfolding out by auto
  have "length (successes_of ?A s) + failures_of ?A s = nat samples"
    using s(1) assms(2)
    by (simp add: tally_length run_attempts_def all_attempts_count distinct_count)
  moreover have "1 \<le> samples" by (rule collect_stats_Inr(1) [OF assms(1)])
  moreover have "1 \<le> length (successes_of ?A s)"
    using s(2) by (cases "successes_of ?A s") simp_all
  ultimately show "ok r + fail r = samples \<and> 1 \<le> ok r"
    by (simp add: rs stats_of_def)
qed

theorem collect_stats_counts_witness:
  "distinct [''a'', ''b''] \<and> ok (hd out1) + fail (hd out1) = 2 \<and> 1 \<le> ok (hd out1)"
  using collect_stats_counts [OF collect_q1] by (simp add: out1_def)

subsection \<open>Classified and unclassified failures\<close>

lemma caught_iff:
  "caught e \<longleftrightarrow>
     e = SocketTimeout \<or> e = SocketGaierror \<or> e = OSError \<or> e = StructError
     \<or> (\<exists>f. e = NTPResponseError f)"
  by (cases e) simp_all

text \<open>
  On core.py the sampler behaves as the specification says. With valid arguments and
  every error of the run among the caught classes, all \<open>samples * length servers\<close>
  attempts are made and every error adds one to its server's counter only.
\<close>

lemma collect_stats_classified:
  assumes "1 \<le> samples" "0 < timeout" "0 \<le> sleep_between"
    and "\<forall>a \<in> set (run_attempts q timeout servers samples). \<not> uncaught caught a"
  shows "\<exists>tr. collect_stats q servers samples timeout sleep_between =
           (tr, Inr (map (\<lambda>s. stats_of s (successes_of (run_attempts q timeout servers samples) s)
                                   (int (failures_of (run_attempts q timeout servers samples) s)))
                      (filter (\<lambda>s. successes_of (run_attempts q timeout servers samples) s \<noteq> [])
                         servers)))
         \<and> queries_of tr = map (\<lambda>(i, s, r). (i, s)) (run_attempts q timeout servers samples)"
  using assms(1-3) sampling_caught [OF assms(4), of sleep_between]
  by (simp add: collect_stats_def)

text \<open>The first error outside the caught classes ends the run: it is the result of
  \<^verbatim>\<open>collect_stats\<close>, no entry is returned, and no later attempt is made.\<close>

lemma collect_stats_unclassified:
  assumes "1 \<le> samples" "0 < timeout" "0 \<le> sleep_between"
    and "find (uncaught caught) (run_attempts q timeout servers samples) = Some (i, s, Inl e)"
  shows "\<exists>tr. collect_stats q servers samples timeout sleep_between = (tr, Inl e)
         \<and> queries_of tr =
             map (\<lambda>(i, s, r). (i, s)) (performed caught (run_attempts q timeout servers samples))"
  using assms(1-3) sampling_uncaught [OF assms(4), of sleep_between]
  by (simp add: collect_stats_def)

lemma collect_once:
  "collect_stats q_once [''s1''] 2 2 0 =
     ([Query 0 ''s1'', Query 1 ''s1''], Inr [stats_s1\<lparr>fail := 1\<rparr>])"
  by (simp add: collect_stats_def sampling_def upt2 attempt_def count_failure_def q_once_def
      stats_row_def mean_def Let_def stats_s1_def)

text \<open>
  Claim C6. Classified failures are counted and the run goes on, every other error
  propagates. core.py does so (the two lemmas above); kntp-lib.py catches
  \<^verbatim>\<open>Exception\<close>: under the stub that raises an unexpected \<^verbatim>\<open>RuntimeError\<close>, core.py
  propagates the error after the one query made, while kntp-lib.py counts it as a failure
  of the server and returns the empty list.
\<close>

theorem lib_collect_stats_swallows_unexpected:
  "collect_stats q_boom [''s1''] 1 2 0 = ([Query 0 ''s1''], Inl (RuntimeError ''unexpected''))
   \<and> lib_collect_stats q_boom [''s1''] 1 2 0 = ([Query 0 ''s1''], Inr [])"
  by (simp add: collect_stats_def lib_collect_stats_def sampling_def attempt_def
      count_failure_def q_boom_def stats_row_def Let_def)

subsection \<open>Argument checks\<close>

text \<open>On core.py every invalid argument is refused before any query: the trace is empty
  whatever the query engine is.\<close>

lemma collect_stats_config:
  assumes "samples < 1 \<or> timeout \<le> 0 \<or> sleep_between < 0"
  shows "\<exists>msg. collect_stats q servers samples timeout sleep_between = ([], Inl (ValueError msg))"
  using assms by (auto simp: collect_stats_def)

text \<open>
  Claim C7. \<^verbatim>\<open>samples < 1\<close>, \<^verbatim>\<open>timeout <= 0\<close> and \<^verbatim>\<open>sleep_between < 0\<close> are
  configuration errors raised before any query. core.py does so (the lemma above);
  kntp-lib.py checks \<^verbatim>\<open>samples\<close> only: with \<open>sleep_between = -0.1\<close>, and with
  \<open>timeout = 0\<close>, it queries the server and returns its statistics.
\<close>

theorem lib_collect_stats_unchecked_timing:
  "collect_stats q_once [''s1''] 1 2 (- 1/10) = ([], Inl (ValueError ''sleep_between must be >= 0''))
   \<and> lib_collect_stats q_once [''s1''] 1 2 (- 1/10) = ([Query 0 ''s1''], Inr [stats_s1])
   \<and> collect_stats q_once [''s1''] 1 0 0 = ([], Inl (ValueError ''timeout must be > 0''))
   \<and> lib_collect_stats q_once [''s1''] 1 0 0 = ([Query 0 ''s1''], Inr [stats_s1])
   \<and> lib_collect_stats q_once [''s1''] 0 2 0 = ([], Inl (ValueError ''samples must be >= 1''))"
  by (simp add: collect_stats_def lib_collect_stats_def sampling_def attempt_def
      count_failure_def q_once_def stats_row_def mean_def Let_def stats_s1_def)

section \<open>Properties of rank\_servers\<close>

lemma grade_letter: "grade = letter"
  by (simp add: fun_eq_iff grade_def letter_def)

lemma lib_grade_eq: "lib_grade = grade"
  by (simp add: fun_eq_iff grade_def lib_grade_def)

lemma rank_loop_step:
  "rank_loop g (st # rest) base b w_delay w_jitter max_delay_ms allow_base acc =
     rank_loop g rest base b w_delay w_jitter max_delay_ms allow_base
       (acc @ (if candidate base max_delay_ms allow_base st
               then [(ranked_of b w_delay w_jitter st)
                       \<lparr>grade_str := g (score (ranked_of b w_delay w_jitter st))\<rparr>]
               else []))"
  by (simp add: candidate_def ranked_of_def Let_def not_le split: option.splits)

lemma rank_loop_eq:
  "rank_loop g stats base b w_delay w_jitter max_delay_ms allow_base acc =
     acc @ map (\<lambda>st. (ranked_of b w_delay w_jitter st)
                        \<lparr>grade_str := g (score (ranked_of b w_delay w_jitter st))\<rparr>)
             (filter (candidate base max_delay_ms allow_base) stats)"
proof (induction stats arbitrary: acc)
  case Nil
  show ?case by simp
next
  case (Cons st stats)
  show ?case by (simp only: rank_loop_step Cons.IH) simp
qed

lemma rank_loop_grade:
  "rank_loop grade stats base b w_delay w_jitter max_delay_ms allow_base [] =
     map (ranked_of b w_delay w_jitter) (filter (candidate base max_delay_ms allow_base) stats)"
  by (simp add: rank_loop_eq grade_letter ranked_of_def)

lemma rank3: "rank_servers stats3 ''base'' (2/10) (5/10) (Some 100) True = Inr ranked3"
  by (simp add: rank_servers_def stats3_def ranked3_def grade_def Let_def)

text \<open>
  Claim C4. Let the weights be non-negative, the delay threshold positive when given,
  and \<open>b\<close> the first entry of \<open>stats\<close> whose server is \<open>base\<close>. Then \<^verbatim>\<open>rank_servers\<close> of
  core.py returns a list \<open>out\<close> that is sorted ascending by score and, for every score
  \<open>k\<close>, holds with that score exactly the entries that the candidates give, in the order of
  the input (so the sort is stable and nothing is lost or added). The candidates are the
  entries of \<open>stats\<close> other than the baseline when \<open>allow_base\<close> is false, with
  \<open>avg_delay_ms\<close> strictly below the threshold when one is given; each gives the entry
  with \<open>vs_base_ms = avg_offset_ms - avg_offset_ms b\<close>,
  \<open>score = |vs_base_ms| + w_delay * avg_delay_ms + w_jitter * std_offset_ms\<close> and the grade
  A up to 5, B up to 10, C up to 20, D above.
\<close>

theorem rank_servers_sorted:
  assumes "0 \<le> w_delay" "0 \<le> w_jitter"
    and "max_delay_ms = None \<or> (\<exists>m. max_delay_ms = Some m \<and> 0 < m)"
    and "find (\<lambda>x. server x = base) stats = Some b"
  shows "\<exists>out. rank_servers stats base w_delay w_jitter max_delay_ms allow_base = Inr out
       \<and> sorted (map score out)
       \<and> (\<forall>k. filter (\<lambda>r. score r = k) out =
               filter (\<lambda>r. score r = k)
                 (map (ranked_of b w_delay w_jitter)
                    (filter (candidate base max_delay_ms allow_base) stats)))
       \<and> (\<forall>r \<in> set out.
             vs_base_ms r = avg_offset_ms r - avg_offset_ms b
           \<and> score r = \<bar>vs_base_ms r\<bar> + w_delay * avg_delay_ms r + w_jitter * std_offset_ms r
           \<and> grade_str r =
               (if score r \<le> 5 then ''A'' else if score r \<le> 10 then ''B''
                else if score r \<le> 20 then ''C'' else ''D'')
           \<and> (allow_base \<or> server r \<noteq> base)
           \<and> (\<forall>m. max_delay_ms = Some m \<longrightarrow> avg_delay_ms r < m))"
proof -
  let ?E = "map (ranked_of b w_delay w_jitter)
              (filter (candidate base max_delay_ms allow_base) stats)"
  have "rank_servers stats base w_delay w_jitter max_delay_ms allow_base =
          Inr (sort_key score ?E)"
    using assms by (auto simp: rank_servers_def rank_loop_grade)
  moreover have "sorted (map score (sort_key score ?E))" by (rule sorted_sort_key)
  moreover have "\<forall>k. filter (\<lambda>r. score r = k) (sort_key score ?E) =
                     filter (\<lambda>r. score r = k) ?E"
    by (simp add: sort_key_stable)
  moreover have "\<forall>r \<in> set (sort_key score ?E).
             vs_base_ms r = avg_offset_ms r - avg_offset_ms b
           \<and> score r = \<bar>vs_base_ms r\<bar> + w_delay * avg_delay_ms r + w_jitter * std_offset_ms r
           \<and> grade_str r =
               (if score r \<le> 5 then ''A'' else if score r \<le> 10 then ''B''
                else if score r \<le> 20 then ''C'' else ''D'')
           \<and> (allow_base \<or> server r \<noteq> base)
           \<and> (\<forall>m. max_delay_ms = Some m \<longrightarrow> avg_delay_ms r < m)"
    by (auto simp: ranked_of_def candidate_def letter_def)
  ultimately show ?thesis by blast
qed

theorem rank_servers_sorted_witness:
  "rank_servers stats3 ''base'' (2/10) (5/10) (Some 100) True = Inr ranked3
   \<and> sorted (map score ranked3)
   \<and> filter (\<lambda>r. score r = 21/10) ranked3 =
       filter (\<lambda>r. score r = 21/10)
         (map (ranked_of (hd stats3) (2/10) (5/10))
            (filter (candidate ''base'' (Some 100) True) stats3))
   \<and> map server ranked3 = [''fast'', ''base'']"
proof -
  have f: "find (\<lambda>x. server x = ''base'') stats3 = Some (hd stats3)"
    by (simp add: stats3_def)
  from rank_servers_sorted
    [of "2/10" "5/10" "Some 100" "''base''" stats3 "hd stats3" True, OF _ _ _ f]
  obtain out where "rank_servers stats3 ''base'' (2/10) (5/10) (Some 100) True = Inr out"
    and "sorted (map score out)"
    and "\<forall>k. filter (\<lambda>r. score r = k) out =
               filter (\<lambda>r. score r = k)
                 (map (ranked_of (hd stats3) (2/10) (5/10))
                    (filter (candidate ''base'' (Some 100) True) stats3))"
    by auto
  moreover from this(1) have "out = ranked3" using rank3 by simp
  moreover have "map server ranked3 = [''fast'', ''base'']" by (simp add: ranked3_def)
  ultimately show ?thesis by blast
qed

text \<open>
  Claim C5. With valid weights and threshold, when no entry of \<open>stats\<close> (the empty list
  included) has the server \<open>base\<close>, \<^verbatim>\<open>rank_servers\<close> of core.py fails with the
  \<^verbatim>\<open>RuntimeError\<close> of the missing baseline and returns no list.
\<close>

theorem rank_servers_no_base:
  assumes "0 \<le> w_delay" "0 \<le> w_jitter"
    and "max_delay_ms = None \<or> (\<exists>m. max_delay_ms = Some m \<and> 0 < m)"
    and "\<forall>x \<in> set stats. server x \<noteq> base"
  shows "rank_servers stats base w_delay w_jitter max_delay_ms allow_base =
           Inl (RuntimeError base)"
proof -
  have "find (\<lambda>x. server x = base) stats = None"
    using assms(4) by (simp add: find_None_all)
  then show ?thesis using assms(1-3) by (auto simp: rank_servers_def)
qed

theorem rank_servers_no_base_witness:
  "rank_servers [] ''missing'' (2/10) (5/10) (Some 100) True = Inl (RuntimeError ''missing'')
   \<and> rank_servers stats3 ''kriss'' 0 0 None False = Inl (RuntimeError ''kriss'')"
  using rank_servers_no_base [of "2/10" "5/10" "Some 100" "[]" "''missing''" True]
    rank_servers_no_base [of 0 0 None stats3 "''kriss''" False]
  by (simp add: stats3_def)

section \<open>Properties of recommend\<close>

lemma recommend_scan_find:
  assumes "\<forall>r \<in> set ranked. 0 \<le> ok r \<and> 0 \<le> fail r"
  shows "recommend_scan ranked base rr =
           find (\<lambda>r. server r \<noteq> base \<and> rr \<le> ok_rate r) ranked"
  using assms
proof (induction ranked)
  case Nil
  show ?case by simp
next
  case (Cons r ranked)
  have "(if ok r + fail r > 0 then real_of_int (ok r) / real_of_int (ok r + fail r) else 0)
          = ok_rate r"
    using Cons.prems by (auto simp: ok_rate_def)
  with Cons show ?case by (simp add: Let_def)
qed

text \<open>On core.py, with counts that are not negative: a rate outside \<open>[0, 1]\<close> is a
  \<^verbatim>\<open>ValueError\<close>, and otherwise the result is the first entry that is not the
  baseline and whose success rate reaches the required rate, or none.\<close>

lemma recommend_core:
  "(rr < 0 \<or> 1 < rr \<longrightarrow> (\<exists>msg. recommend ranked base rr = Inl (ValueError msg)))
   \<and> (0 \<le> rr \<and> rr \<le> 1 \<and> (\<forall>r \<in> set ranked. 0 \<le> ok r \<and> 0 \<le> fail r) \<longrightarrow>
        recommend ranked base rr =
          Inr (find (\<lambda>r. server r \<noteq> base \<and> rr \<le> ok_rate r) ranked))"
  by (auto simp: recommend_def recommend_scan_find)

lemma recommend_test: "recommend ranked_test ''base'' (8/10) = Inr (Some good)"
  by (simp add: recommend_def ranked_test_def low_ok_def good_def Let_def)

text \<open>
  Claim C8. \<^verbatim>\<open>recommend\<close> refuses a required rate outside \<open>[0, 1]\<close> and otherwise
  returns the first qualifying entry that is not the baseline. core.py does so (the lemma
  above); kntp-lib.py has no check of the rate: for the rates 1.1 and -0.1 of the test
  suite core.py raises \<^verbatim>\<open>ValueError\<close>, while kntp-lib.py returns none for the first and
  the entry with success rate 0.2 for the second.
\<close>

theorem lib_recommend_unchecked_rate:
  "recommend [] ''ntp.kriss.re.kr'' (11/10) =
     Inl (ValueError ''require_ok_rate must be between 0.0 and 1.0'')
   \<and> lib_recommend [] ''ntp.kriss.re.kr'' (11/10) = Inr None
   \<and> recommend ranked_test ''base'' (- 1/10) =
       Inl (ValueError ''require_ok_rate must be between 0.0 and 1.0'')
   \<and> lib_recommend ranked_test ''base'' (- 1/10) = Inr (Some low_ok)"
  by (simp add: recommend_def lib_recommend_def ranked_test_def low_ok_def good_def Let_def)

section \<open>Properties of response validation\<close>

text \<open>
  On core.py validation fails exactly when the buffer is shorter than 48 bytes, or the low
  three bits of byte 0 are not 4, or the top two bits of byte 0 are 3, or byte 1 is 0, or
  the originate timestamp in bytes 24-31 is not the one sent; every failure is an
  \<^verbatim>\<open>NTPResponseError\<close>, and a query whose reply fails validation returns that error and
  no sample.
\<close>

lemma validate_fails_iff:
  "validate_ntp_response data req_sec req_frac \<noteq> Inr () \<longleftrightarrow>
     (length data < 48 \<or> unat (data ! 0) mod 8 \<noteq> 4 \<or> unat (data ! 0) div 64 = 3
      \<or> data ! 1 = 0 \<or> (int (word_at data 24), int (word_at data 28)) \<noteq> (req_sec, req_frac))"
proof (cases "length data < 48")
  case True
  then show ?thesis by (simp add: validate_ntp_response_def)
next
  case False
  then have len: "48 \<le> length data" by simp
  show ?thesis using False
    by (simp add: validate_ntp_response_def Let_def unpack_originate [OF len] mode_bits
        leap_bits)
qed

lemma validate_error_class:
  "validate_ntp_response data req_sec req_frac = Inr ()
   \<or> (\<exists>f. validate_ntp_response data req_sec req_frac = Inl (NTPResponseError f))"
proof (cases "length data < 48")
  case True
  then show ?thesis by (simp add: validate_ntp_response_def)
next
  case False
  then have len: "48 \<le> length data" by simp
  show ?thesis using False
    by (simp add: validate_ntp_response_def Let_def unpack_originate [OF len])
qed

lemma query_ntp_validates_first:
  assumes "socket_open env = None" "0 \<le> timeout"
    and "req_sec = py_int (system_to_ntp (time_send env))"
    and "req_frac = py_int ((system_to_ntp (time_send env) - of_int req_sec) * 2 ^ 32)"
    and "struct_pack_into_II request_packet 40 req_sec req_frac = Inr packet"
    and "exchange env host timeout packet = NetReply data t4"
    and "validate_ntp_response data req_sec req_frac = Inl e"
  shows "query_ntp env host timeout = Inl e"
  using assms by (simp add: query_ntp_def Let_def)

lemma reply3_invalid:
  "validate_ntp_response reply3 2208988800 0 = Inl (NTPResponseError (InvalidMode 3))"
  by (simp add: validate_ntp_response_def reply3_def reply0_def Let_def)

text \<open>The query of kntp-lib.py turns every reply of 48 bytes or more into a sample.\<close>

lemma lib_query_ntp_sample:
  assumes "socket_open env = None" "0 \<le> timeout"
    and "struct_pack_into_II request_packet 40 (py_int (system_to_ntp (time_send env)))
           (py_int ((system_to_ntp (time_send env)
                     - of_int (py_int (system_to_ntp (time_send env)))) * 2 ^ 32)) = Inr packet"
    and "exchange env host timeout packet = NetReply data t4"
    and len: "48 \<le> length data"
  shows "lib_query_ntp env host timeout =
           Inr \<lparr>offset_ms =
                  (((real (word_at data 32) + real (word_at data 36) / 2 ^ 32 - 2208988800
                       - time_send env)
                    + (real (word_at data 40) + real (word_at data 44) / 2 ^ 32 - 2208988800 - t4))
                   / 2) * 1000,
                delay_ms =
                  ((t4 - time_send env)
                   - (real (word_at data 40) + real (word_at data 44) / 2 ^ 32 - 2208988800
                      - (real (word_at data 32) + real (word_at data 36) / 2 ^ 32 - 2208988800)))
                  * 1000\<rparr>"
proof -
  from sample_of_words [OF len, of "time_send env" t4] obtain u where
    u: "struct_unpack 12 (take 48 data) = Inr u"
    and s: "sample_of (time_send env) t4 u =
           \<lparr>offset_ms =
                  (((real (word_at data 32) + real (word_at data 36) / 2 ^ 32 - 2208988800
                       - time_send env)
                    + (real (word_at data 40) + real (word_at data 44) / 2 ^ 32 - 2208988800 - t4))
                   / 2) * 1000,
                delay_ms =
                  ((t4 - time_send env)
                   - (real (word_at data 40) + real (word_at data 44) / 2 ^ 32 - 2208988800
                      - (real (word_at data 32) + real (word_at data 36) / 2 ^ 32 - 2208988800)))
                  * 1000\<rparr>"
    by blast
  have "lib_query_ntp env host timeout = Inr (sample_of (time_send env) t4 u)"
    using assms u by (simp add: lib_query_ntp_def Let_def)
  with s show ?thesis by simp
qed

lemma query3: "query_ntp env3 ''ntp.kriss.re.kr'' 2 = Inl (NTPResponseError (InvalidMode 3))"
  by (simp add: query_ntp_def env3_def system_to_ntp_def NTP_DELTA_def py_int_def pack0
      reply3_invalid Let_def)

lemma lib_query3:
  "lib_query_ntp env3 ''ntp.kriss.re.kr'' 2 = Inr \<lparr>offset_ms = 250, delay_ms = 1500\<rparr>"
proof -
  have "lib_query_ntp env3 ''ntp.kriss.re.kr'' 2 =
          Inr \<lparr>offset_ms =
                  (((real (word_at reply3 32) + real (word_at reply3 36) / 2 ^ 32 - 2208988800
                       - time_send env3)
                    + (real (word_at reply3 40) + real (word_at reply3 44) / 2 ^ 32 - 2208988800 - 2))
                   / 2) * 1000,
                delay_ms =
                  ((2 - time_send env3)
                   - (real (word_at reply3 40) + real (word_at reply3 44) / 2 ^ 32 - 2208988800
                      - (real (word_at reply3 32) + real (word_at reply3 36) / 2 ^ 32 - 2208988800)))
                  * 1000\<rparr>"
    by (rule lib_query_ntp_sample)
       (simp_all add: env3_def system_to_ntp_def NTP_DELTA_def py_int_def pack0 length_reply3)
  then show ?thesis by (simp add: words3 env3_def)
qed

text \<open>
  Claim C1. Validation fails, with \<^verbatim>\<open>NTPResponseError\<close>, exactly on a short buffer, a mode
  other than 4, leap indicator 3, stratum 0 or an originate timestamp other than the one
  sent, and it runs before the offset and delay are computed. core.py does so (the lemmas
  above); the query of kntp-lib.py checks the length only: a reply in mode 3, which core.py
  refuses, it turns into a sample.
\<close>

theorem lib_query_ntp_accepts_mode3:
  "validate_ntp_response reply3 2208988800 0 = Inl (NTPResponseError (InvalidMode 3))
   \<and> query_ntp env3 ''ntp.kriss.re.kr'' 2 = Inl (NTPResponseError (InvalidMode 3))
   \<and> lib_query_ntp env3 ''ntp.kriss.re.kr'' 2 = Inr \<lparr>offset_ms = 250, delay_ms = 1500\<rparr>"
  by (simp add: reply3_invalid query3 lib_query3)

section \<open>The two copies compared\<close>

text \<open>Where the arguments pass the checks of core.py, ranking and recommendation agree
  in the two copies, and so does the query on every reply that core.py accepts.\<close>

lemma lib_rank_servers_agrees:
  assumes "0 \<le> w_delay" "0 \<le> w_jitter"
    and "max_delay_ms = None \<or> (\<exists>m. max_delay_ms = Some m \<and> 0 < m)"
  shows "lib_rank_servers stats base w_delay w_jitter max_delay_ms allow_base =
           rank_servers stats base w_delay w_jitter max_delay_ms allow_base"
  using assms by (auto simp: rank_servers_def lib_rank_servers_def lib_grade_eq split: option.splits)

lemma lib_recommend_agrees:
  assumes "0 \<le> rr" "rr \<le> 1"
  shows "lib_recommend ranked base rr = recommend ranked base rr"
  using assms by (simp add: recommend_def lib_recommend_def)

lemma lib_query_ntp_agrees:
  assumes "socket_open env = None" "0 \<le> timeout"
    and "req_sec = py_int (system_to_ntp (time_send env))"
    and "req_frac = py_int ((system_to_ntp (time_send env) - of_int req_sec) * 2 ^ 32)"
    and "struct_pack_into_II request_packet 40 req_sec req_frac = Inr packet"
    and "exchange env host timeout packet = NetReply data t4"
    and "validate_ntp_response data req_sec req_frac = Inr ()"
  shows "lib_query_ntp env host timeout = query_ntp env host timeout"
proof -
  have "\<not> length data < 48" using validate_ok_length [OF assms(7)] by simp
  with assms show ?thesis by (simp add: query_ntp_def lib_query_ntp_def Let_def)
qed

text \<open>The samplers return the same result when the timing arguments pass the checks
  of core.py and no attempt of the run raises an error that one \<^verbatim>\<open>except\<close> clause
  catches and the other does not.\<close>

lemma lib_collect_stats_agrees:
  assumes "0 < timeout" "0 \<le> sleep_between"
    and same: "\<forall>a \<in> set (run_attempts q timeout servers samples).
                 uncaught lib_caught a = uncaught caught a"
  shows "snd (lib_collect_stats q servers samples timeout sleep_between) =
           snd (collect_stats q servers samples timeout sleep_between)"
proof (cases "samples < 1")
  case True
  then show ?thesis by (simp add: collect_stats_def lib_collect_stats_def)
next
  case False
  let ?A = "run_attempts q timeout servers samples"
  have l: "lib_collect_stats q servers samples timeout sleep_between =
             sampling lib_caught q servers samples timeout sleep_between"
    and c: "collect_stats q servers samples timeout sleep_between =
             sampling caught q servers samples timeout sleep_between"
    using False assms(1,2) by (simp_all add: collect_stats_def lib_collect_stats_def)
  have f: "find (uncaught lib_caught) ?A = find (uncaught caught) ?A"
    using same by (intro find_cong) simp_all
  show ?thesis
  proof (cases "find (uncaught caught) ?A")
    case None
    then have c1: "\<forall>a \<in> set ?A. \<not> uncaught caught a" by (simp add: find_None_all)
    with same have c2: "\<forall>a \<in> set ?A. \<not> uncaught lib_caught a" by simp
    from sampling_caught [OF c1, of sleep_between] sampling_caught [OF c2, of sleep_between]
    show ?thesis unfolding l c by auto
  next
    case (Some a)
    from find_uncaught_form [OF Some] obtain i s e where a: "a = (i, s, Inl e)" by blast
    from Some f a have s1: "find (uncaught caught) ?A = Some (i, s, Inl e)"
      and s2: "find (uncaught lib_caught) ?A = Some (i, s, Inl e)" by simp_all
    from sampling_uncaught [OF s1, of sleep_between] sampling_uncaught [OF s2, of sleep_between]
    show ?thesis unfolding l c by auto
  qed
qed

text \<open>
  Claim C9. The two copies are not behaviourally identical. \<^verbatim>\<open>grade\<close> is the same
  function in both, but on a reply in mode 3 the queries differ, on an unexpected error
  and on a negative pause the samplers differ, on a negative weight the rankings differ,
  and on a rate above 1 the recommendations differ.
\<close>

theorem copies_differ:
  "lib_grade = grade
   \<and> lib_query_ntp env3 ''ntp.kriss.re.kr'' 2 \<noteq> query_ntp env3 ''ntp.kriss.re.kr'' 2
   \<and> lib_collect_stats q_boom [''s1''] 1 2 0 \<noteq> collect_stats q_boom [''s1''] 1 2 0
   \<and> lib_collect_stats q_once [''s1''] 1 2 (- 1/10) \<noteq> collect_stats q_once [''s1''] 1 2 (- 1/10)
   \<and> lib_rank_servers stats3 ''base'' (- 1/10) (5/10) (Some 100) True
        \<noteq> rank_servers stats3 ''base'' (- 1/10) (5/10) (Some 100) True
   \<and> lib_recommend [] ''ntp.kriss.re.kr'' (11/10) \<noteq> recommend [] ''ntp.kriss.re.kr'' (11/10)"
proof -
  note lib_query3
  moreover note query3
  moreover have "lib_collect_stats q_boom [''s1''] 1 2 0 = ([Query 0 ''s1''], Inr [])"
    by (simp add: lib_collect_stats_def sampling_def attempt_def
      count_failure_def q_boom_def stats_row_def Let_def)
  moreover have "collect_stats q_boom [''s1''] 1 2 0 =
      ([Query 0 ''s1''], Inl (RuntimeError ''unexpected''))"
    by (simp add: collect_stats_def sampling_def attempt_def q_boom_def Let_def)
  moreover have "lib_collect_stats q_once [''s1''] 1 2 (- 1/10) = ([Query 0 ''s1''], Inr [stats_s1])"
    by (simp add: lib_collect_stats_def sampling_def attempt_def
      q_once_def stats_row_def mean_def Let_def stats_s1_def)
  moreover have "\<exists>msg. collect_stats q_once [''s1''] 1 2 (- 1/10) = ([], Inl (ValueError msg))"
    by (simp add: collect_stats_def)
  moreover have "\<exists>out. lib_rank_servers stats3 ''base'' (- 1/10) (5/10) (Some 100) True = Inr out"
    by (simp add: lib_rank_servers_def stats3_def)
  moreover have "\<exists>msg. rank_servers stats3 ''base'' (- 1/10) (5/10) (Some 100) True
      = Inl (ValueError msg)"
    by (simp add: rank_servers_def)
  moreover have "lib_recommend [] ''ntp.kriss.re.kr'' (11/10) = Inr None"
    by (simp add: lib_recommend_def)
  moreover have "\<exists>msg. recommend [] ''ntp.kriss.re.kr'' (11/10) = Inl (ValueError msg)"
    by (simp add: recommend_def)
  ultimately show ?thesis by (auto simp: lib_grade_eq)
qed

end
